theory Spec2Isabelle
  imports Main "HOL-Library.Sublist"
begin

section \<open>Text\<close>

text \<open>
  A Python \<open>str\<close> is modelled as a \<open>string\<close>: the list of its code points, each an
  Isabelle \<open>char\<close>, so the model covers text of code points below 256 (Latin-1), and
  \<open>length\<close> is Python's \<open>len\<close>.  \<open>str.lower\<close> on that range maps \<open>A..Z\<close> and the
  accented capitals 192..222 (the multiplication sign 215 apart) 32 code points up and
  leaves every other character alone.
\<close>

definition lower_char :: "char \<Rightarrow> char" where
  "lower_char c =
     (let n = (of_char c :: nat)
      in if (65 \<le> n \<and> n \<le> 90) \<or> (192 \<le> n \<and> n \<le> 222 \<and> n \<noteq> 215)
         then char_of (n + 32) else c)"

definition lower :: "string \<Rightarrow> string" where
  "lower s = map lower_char s"

text \<open>\<open>kw in text\<close> on two strings: \<open>kw\<close> occurs in \<open>text\<close> as a contiguous run.\<close>

definition contains :: "string \<Rightarrow> string \<Rightarrow> bool" where
  "contains kw txt = sublist kw txt"


section \<open>Configuration\<close>

definition TOTAL_ARTICLES :: nat where "TOTAL_ARTICLES = 9"
definition SLOTS_ROMANIA :: nat where "SLOTS_ROMANIA = 3"
definition SLOTS_EUROPE :: nat where "SLOTS_EUROPE = 3"
definition SLOTS_GLOBAL :: nat where "SLOTS_GLOBAL = 3"
definition MAX_AGE_DAYS :: int where "MAX_AGE_DAYS = 14"

definition GEO_ROMANIA_KEYWORDS :: "string list" where
  "GEO_ROMANIA_KEYWORDS =
    [''romania'', ''romanian'', ''bucharest'', ''bucuresti'',
     ''transylvania'', ''moldova'', ''moldavia'',
     ''constanta'', ''mamaia'', ''brasov'', ''sibiu'', ''cluj'',
     ''timisoara'', ''iasi'', ''maramures'', ''banat'', ''dobrogea'',
     ''black sea coast'', ''danube delta'', ''tulcea'', ''prahova'',
     ''bran'', ''sinaia'', ''poiana brasov'', ''vama veche'',
     ''bucovina'', ''painted monasteries'']"

definition GEO_EUROPE_KEYWORDS :: "string list" where
  "GEO_EUROPE_KEYWORDS =
    [''europe'', ''european'', ''eu '', '' eu,'', ''eu's'',
     ''mediterranean'', ''balkans'', ''balkan'',
     ''spain'', ''spanish'', ''france'', ''french'', ''italy'', ''italian'',
     ''greece'', ''greek'', ''portugal'', ''portuguese'',
     ''germany'', ''german'', ''austria'', ''austrian'', ''switzerland'', ''swiss'',
     ''croatia'', ''croatian'', ''slovenia'', ''slovenia'',
     ''bulgaria'', ''bulgarian'', ''serbia'', ''serbian'', ''hungary'', ''hungarian'',
     ''turkey'', ''turkish'', ''czech'', ''prague'', ''poland'', ''polish'',
     ''netherlands'', ''dutch'', ''belgium'', ''belgian'',
     ''uk '', ''britain'', ''british'', ''london'', ''scotland'', ''ireland'',
     ''scandinavia'', ''nordic'', ''norway'', ''sweden'', ''denmark'', ''finland'',
     ''barcelona'', ''paris'', ''rome'', ''lisbon'', ''berlin'', ''vienna'',
     ''amsterdam'', ''dubrovnik'', ''santorini'', ''alps'',
     ''schengen'', ''eurozone'', ''ryanair'', ''easyjet'', ''eurowings'',
     ''european commission'', ''european parliament'', ''eu tourism'',
     ''eu fund'', ''erasmus'', ''horizon europe'']"

definition KEYWORDS_HIGH_VALUE :: "string list" where
  "KEYWORDS_HIGH_VALUE =
    [''destination marketing'', ''dmo'', ''destination management'',
     ''tourism strategy'', ''tourism board'', ''national tourism'',
     ''wine tourism'', ''sustainable tourism'', ''slow travel'',
     ''overtourism'', ''tourist tax'', ''tourism tax'',
     ''review management'', ''tripadvisor'', ''ota management'',
     ''travel tech'', ''digital campaign'', ''programmatic'',
     ''feeder market'', ''source market'',
     ''hotel marketing'', ''hospitality marketing'',
     ''mice tourism'', ''conference tourism'',
     ''cultural tourism'', ''heritage tourism'', ''rural tourism'',
     ''ai tourism'', ''artificial intelligence travel'',
     ''tourism investment'', ''tourism infrastructure'',
     ''eco tourism'', ''responsible tourism'',
     ''culinary tourism'', ''food tourism'', ''gastro tourism'']"

definition KEYWORDS_MEDIUM_VALUE :: "string list" where
  "KEYWORDS_MEDIUM_VALUE =
    [''tourism'', ''travel industry'', ''hospitality'',
     ''hotel'', ''resort'', ''accommodation'',
     ''destination'', ''visitor economy'', ''inbound tourism'',
     ''outbound tourism'', ''travel trend'', ''booking'',
     ''airline'', ''cruise'', ''tour operator'',
     ''travel recovery'', ''tourism growth'', ''visitor numbers'',
     ''travel technology'', ''digital transformation'',
     ''influencer'', ''content marketing'', ''social media travel'']"

text \<open>The clickbait phrases, a list literal inside \<open>score_article\<close>.\<close>

definition CLICKBAIT :: "string list" where
  "CLICKBAIT = [''you won't believe'', ''shocking'', ''amazing trick'', ''top 10 hack'']"


section \<open>Articles\<close>

text \<open>
  Instants are counted in microseconds, the resolution of Python's \<open>datetime\<close>; the
  \<open>days\<close> of a \<open>timedelta\<close> is its floor division by one day, also when it is negative.

  The \<open>date_obj\<close> entry of an article is a string.  What \<open>score_article\<close> does with it
  depends only on which of four kinds it is: the empty string (\<open>NoStamp\<close>); an ISO
  string without a UTC offset, which \<open>datetime.fromisoformat\<close> reads as a naive instant
  (\<open>Stamp\<close>, as \<open>isoformat\<close> writes in \<open>parse_entry\<close>); an ISO string with a UTC
  offset, read as an aware instant, whose subtraction from the naive \<open>datetime.now()\<close>
  raises (\<open>AwareStamp\<close>); or another non-empty string, on which \<open>fromisoformat\<close> raises
  (\<open>BadStamp\<close>).  The \<open>except\<close> clause in \<open>score_article\<close> catches both exceptions.
\<close>

definition days :: "int \<Rightarrow> int" where
  "days delta = delta div 86400000000"

datatype stamp = NoStamp | Stamp int | AwareStamp int | BadStamp

record article =
  id_a :: string
  title :: string
  summary :: string
  url :: string
  source :: string
  feed_geo :: string
  geo :: string
  date :: string
  date_obj :: stamp
  score :: int


section \<open>Geographic classification\<close>

definition article_text :: "article \<Rightarrow> string" where
  "article_text a = lower (title a @ '' '' @ summary a)"

definition hits :: "string list \<Rightarrow> string \<Rightarrow> nat" where
  "hits kws txt = length (filter (\<lambda>kw. contains kw txt) kws)"

definition classify_geography :: "article \<Rightarrow> article" where
  "classify_geography a =
     (let txt = article_text a;
          romania_hits = hits GEO_ROMANIA_KEYWORDS txt
      in if romania_hits \<ge> 1 then a\<lparr>geo := ''romania''\<rparr>
         else
           let europe_hits = hits GEO_EUROPE_KEYWORDS txt
           in if europe_hits \<ge> 1 then a\<lparr>geo := ''europe''\<rparr>
              else if feed_geo a = ''romania'' then a\<lparr>geo := ''romania''\<rparr>
              else if feed_geo a = ''europe'' then a\<lparr>geo := ''europe''\<rparr>
              else a\<lparr>geo := ''global''\<rparr>)"


section \<open>Relevance scoring\<close>

text \<open>
  The three keyword loops of \<open>score_article\<close> add a fixed amount to the running score
  for every list entry the text contains; the recency bonus is added between the second
  and the third.  \<open>now\<close> is the value of \<open>datetime.now()\<close> at the call.
\<close>

definition add_matches :: "int \<Rightarrow> string list \<Rightarrow> string \<Rightarrow> int \<Rightarrow> int" where
  "add_matches w kws txt s0 = foldl (\<lambda>s kw. if contains kw txt then s + w else s) s0 kws"

definition recency_bonus :: "int \<Rightarrow> stamp \<Rightarrow> int" where
  "recency_bonus now d =
     (case d of
        NoStamp \<Rightarrow> 0
      | BadStamp \<Rightarrow> 0
      | AwareStamp t \<Rightarrow> 0
      | Stamp t \<Rightarrow>
          (let age = days (now - t)
           in if age \<le> 1 then 6 else if age \<le> 3 then 4 else if age \<le> 7 then 2 else 0))"

definition score_article :: "int \<Rightarrow> article \<Rightarrow> article" where
  "score_article now a =
     (let txt = article_text a;
          s1 = add_matches 4 KEYWORDS_HIGH_VALUE txt 0;
          s2 = add_matches 1 KEYWORDS_MEDIUM_VALUE txt s1;
          s3 = s2 + recency_bonus now (date_obj a);
          s4 = add_matches (- 5) CLICKBAIT txt s3
      in a\<lparr>score := max s4 0\<rparr>)"


section \<open>Deduplication\<close>

text \<open>
  The key of an article: its lowercased title without the characters that
  \<open>[^a-z0-9]\<close> matches, cut to 50 characters.
\<close>

definition is_az09 :: "char \<Rightarrow> bool" where
  "is_az09 c = (let n = (of_char c :: nat) in (97 \<le> n \<and> n \<le> 122) \<or> (48 \<le> n \<and> n \<le> 57))"

definition dedup_key :: "article \<Rightarrow> string" where
  "dedup_key a = take 50 (filter is_az09 (lower (title a)))"

text \<open>
  For comparison, the key in the words of the specification: the lowercased title without
  its non-alphanumeric characters, cut to 50.  Alphanumeric is what \<open>str.isalnum\<close>
  accepts; below code point 256 these are the digits, the letters \<open>A..Z\<close> and \<open>a..z\<close>,
  the accented letters 192..255 (215 and 247 apart), and 170, 178, 179, 181, 185, 186,
  188, 189, 190.
\<close>

definition is_alnum :: "char \<Rightarrow> bool" where
  "is_alnum c =
     (let n = (of_char c :: nat)
      in (48 \<le> n \<and> n \<le> 57) \<or> (65 \<le> n \<and> n \<le> 90) \<or> (97 \<le> n \<and> n \<le> 122)
         \<or> (192 \<le> n \<and> n \<le> 255 \<and> n \<noteq> 215 \<and> n \<noteq> 247)
         \<or> n \<in> {170, 178, 179, 181, 185, 186, 188, 189, 190})"

definition alnum_key :: "article \<Rightarrow> string" where
  "alnum_key a = take 50 (filter is_alnum (lower (title a)))"

text \<open>One turn of the loop of \<open>deduplicate\<close>, on the pair of \<open>seen\<close> and \<open>unique\<close>.\<close>

definition dedup_step :: "string set \<times> article list \<Rightarrow> article \<Rightarrow> string set \<times> article list" where
  "dedup_step st a =
     (let key = dedup_key a
      in if key \<notin> fst st then (insert key (fst st), snd st @ [a]) else st)"

definition deduplicate :: "article list \<Rightarrow> article list" where
  "deduplicate articles = snd (foldl dedup_step ({}, []) articles)"


section \<open>Balanced selection\<close>

text \<open>
  \<open>list.sort(key=score, reverse=True)\<close> is stable: articles of equal score keep their
  order.  So is \<open>sort_key\<close>, here on the negated score.
\<close>

definition sort_by_score :: "article list \<Rightarrow> article list" where
  "sort_by_score xs = sort_key (\<lambda>x. - score x) xs"

definition bucket :: "string \<Rightarrow> article list \<Rightarrow> article list" where
  "bucket g articles = sort_by_score (filter (\<lambda>a. geo a = g) articles)"

text \<open>The overflow pool in bucket priority, given the articles picked so far.\<close>

definition overflow_ordered :: "article list \<Rightarrow> article list \<Rightarrow> article list" where
  "overflow_ordered articles picked =
     (let used_ids = id_a ` set picked;
          overflow_pool = sort_by_score (filter (\<lambda>a. id_a a \<notin> used_ids) articles);
          eu_overflow = filter (\<lambda>a. geo a = ''europe'') overflow_pool;
          gl_overflow = filter (\<lambda>a. geo a = ''global'') overflow_pool;
          ro_overflow = filter (\<lambda>a. geo a = ''romania'') overflow_pool
      in eu_overflow @ gl_overflow @ ro_overflow)"

text \<open>
  The three picked lists after the overflow step, in the order
  \<open>(picked_ro, picked_eu, picked_gl)\<close>.
\<close>

definition picked_lists :: "article list \<Rightarrow> article list \<times> article list \<times> article list" where
  "picked_lists articles =
     (let picked_ro = take SLOTS_ROMANIA (bucket ''romania'' articles);
          picked_eu = take SLOTS_EUROPE (bucket ''europe'' articles);
          picked_gl = take SLOTS_GLOBAL (bucket ''global'' articles);
          total_picked = length picked_ro + length picked_eu + length picked_gl;
          remaining_needed = int TOTAL_ARTICLES - int total_picked
      in if remaining_needed > 0
         then
           let extra = take (nat remaining_needed)
                         (overflow_ordered articles (picked_ro @ picked_eu @ picked_gl))
           in (picked_ro @ filter (\<lambda>a. geo a = ''romania'') extra,
               picked_eu @ filter (\<lambda>a. geo a = ''europe'') extra,
               picked_gl @ filter (\<lambda>a. geo a = ''global'') extra)
         else (picked_ro, picked_eu, picked_gl))"

text \<open>One turn of the interleaving loop, at index \<open>i\<close>, on the list \<open>final\<close>.\<close>

definition interleave_step ::
  "article list \<Rightarrow> article list \<Rightarrow> article list \<Rightarrow> article list \<Rightarrow> nat \<Rightarrow> article list" where
  "interleave_step picked_ro picked_eu picked_gl final i =
     (let f1 = (if i < length picked_ro then final @ [picked_ro ! i] else final);
          f2 = (if i < length picked_eu then f1 @ [picked_eu ! i] else f1);
          f3 = (if i < length picked_gl then f2 @ [picked_gl ! i] else f2)
      in f3)"

definition interleave :: "article list \<Rightarrow> article list \<Rightarrow> article list \<Rightarrow> article list" where
  "interleave picked_ro picked_eu picked_gl =
     (let max_len = max (length picked_ro) (max (length picked_eu) (length picked_gl))
      in foldl (interleave_step picked_ro picked_eu picked_gl) [] [0..<max_len])"

definition balanced_selection :: "article list \<Rightarrow> article list" where
  "balanced_selection articles =
     (case picked_lists articles of
        (picked_ro, picked_eu, picked_gl) \<Rightarrow>
          take TOTAL_ARTICLES (interleave picked_ro picked_eu picked_gl))"


section \<open>Entry normalisation\<close>

text \<open>
  Whitespace as \<open>\s\<close> and \<open>str.strip\<close> read it on text below code point 256: the
  code points 9 to 13, 28 to 32, 133 and 160.
\<close>

definition is_space :: "char \<Rightarrow> bool" where
  "is_space c =
     (let n = (of_char c :: nat)
      in (9 \<le> n \<and> n \<le> 13) \<or> (28 \<le> n \<and> n \<le> 32) \<or> n = 133 \<or> n = 160)"

definition strip :: "string \<Rightarrow> string" where
  "strip s = rev (dropWhile is_space (rev (dropWhile is_space s)))"

text \<open>
  \<open>re.sub(r"<[^>]+>", "", text)\<close>: scanning from the left, a \<open><\<close> followed by one or
  more characters other than \<open>>\<close> and then a \<open>>\<close> is removed up to that \<open>>\<close>; any
  other character is kept.
\<close>

function strip_tags :: "string \<Rightarrow> string" where
  "strip_tags [] = []"
| "strip_tags (c # cs) =
     (if c = CHR ''<'' \<and> takeWhile (\<lambda>x. x \<noteq> CHR ''>'') cs \<noteq> []
           \<and> dropWhile (\<lambda>x. x \<noteq> CHR ''>'') cs \<noteq> []
      then strip_tags (tl (dropWhile (\<lambda>x. x \<noteq> CHR ''>'') cs))
      else c # strip_tags cs)"
  by pat_completeness auto
termination
proof (relation "measure length")
  fix c :: char and cs :: string
  have "length (tl (dropWhile (\<lambda>x. x \<noteq> CHR ''>'') cs)) \<le> length cs"
    using length_dropWhile_le [of "\<lambda>x. x \<noteq> CHR ''>''" cs] by simp
  then show "(tl (dropWhile (\<lambda>x. x \<noteq> CHR ''>'') cs), c # cs) \<in> measure length"
    by simp
qed simp_all

text \<open>\<open>re.sub(r"\s+", " ", text)\<close>: every maximal run of whitespace becomes one space.\<close>

function collapse_ws :: "string \<Rightarrow> string" where
  "collapse_ws [] = []"
| "collapse_ws (c # cs) =
     (if is_space c then CHR '' '' # collapse_ws (dropWhile is_space cs)
      else c # collapse_ws cs)"
  by pat_completeness auto
termination
proof (relation "measure length")
  fix c :: char and cs :: string
  show "(dropWhile is_space cs, c # cs) \<in> measure length"
    using length_dropWhile_le [of is_space cs] by simp
qed simp_all

text \<open>
  \<open>re.sub(r"\[\.{3}\]$", "", text)\<close>: a final \<open>[...]\<close> is removed, also when one line
  feed follows it (where \<open>$\<close> matches too).
\<close>

definition drop_ellipsis :: "string \<Rightarrow> string" where
  "drop_ellipsis s =
     (if suffix ''[...]'' s then take (length s - 5) s
      else if suffix (''[...]'' @ [CHR 0x0A]) s then take (length s - 6) s @ [CHR 0x0A]
      else s)"

definition clean_text :: "string \<Rightarrow> string" where
  "clean_text txt = strip (drop_ellipsis (strip (collapse_ws (strip_tags txt))))"

text \<open>
  \<open>clean_html\<close> calls BeautifulSoup, which is not part of the program: \<open>soup_text\<close>
  stands for parsing the markup, removing the \<open>script\<close>, \<open>style\<close> and \<open>iframe\<close>
  elements and \<open>get_text(separator=" ")\<close>, and returns \<open>Inl\<close> when any of that raises.
\<close>

datatype py_error = PyException

definition clean_html :: "(string \<Rightarrow> py_error + string) \<Rightarrow> string \<Rightarrow> string" where
  "clean_html soup_text html =
     (case soup_text html of
        Inr txt \<Rightarrow> strip (collapse_ws txt)
      | Inl _ \<Rightarrow> clean_text html)"

text \<open>
  A feed entry.  A value read with \<open>entry.get\<close> is absent (\<open>None\<close>), a string
  (\<open>Text\<close>), or something that is not a string (\<open>Other\<close>, with its truth value); the
  summary and the description are strings when present, as the feed parser delivers them.
  A date field is absent or empty (\<open>NoField\<close>), a time tuple from which \<open>datetime\<close>
  builds an instant that \<open>strftime\<close> renders (\<open>Parsed\<close>, with the rendered date), a
  value on which \<open>datetime\<close> raises (\<open>BadTuple\<close>), or a tuple whose instant \<open>strftime\<close>
  cannot render (\<open>Unformattable\<close>).
\<close>

datatype pyval = Text string | Other bool

definition truthy :: "pyval \<Rightarrow> bool" where
  "truthy v = (case v of Text s \<Rightarrow> s \<noteq> [] | Other b \<Rightarrow> b)"

text \<open>\<open>entry.get(key, "")\<close>.\<close>

definition get_or_empty :: "pyval option \<Rightarrow> pyval" where
  "get_or_empty v = (case v of Some x \<Rightarrow> x | None \<Rightarrow> Text [])"

datatype time_field = NoField | Parsed int string | BadTuple | Unformattable int

record entry =
  entry_title :: "pyval option"
  entry_link :: "pyval option"
  entry_summary :: "string option"
  entry_description :: "string option"
  published_parsed :: time_field
  updated_parsed :: time_field

record feed_config =
  cfg_url :: string
  cfg_source :: string
  cfg_geo :: string

text \<open>
  The first part of \<open>rsplit\<close> at one space, split once: the text before the last
  space, or all of it without one.
\<close>

definition rsplit_head :: "string \<Rightarrow> string" where
  "rsplit_head s =
     (if CHR '' '' \<in> set s then rev (tl (dropWhile (\<lambda>c. c \<noteq> CHR '' '') (rev s))) else s)"

text \<open>The raw and the cleaned summary of an entry.\<close>

definition summary_raw :: "entry \<Rightarrow> string" where
  "summary_raw e =
     (case entry_summary e of
        Some s \<Rightarrow> s
      | None \<Rightarrow> (case entry_description e of Some d \<Rightarrow> d | None \<Rightarrow> []))"

definition cleaned_summary :: "(string \<Rightarrow> py_error + string) \<Rightarrow> entry \<Rightarrow> string" where
  "cleaned_summary soup_text e = clean_html soup_text (summary_raw e)"

text \<open>The summary of the article, given the cleaned title.\<close>

definition summary_of_entry :: "(string \<Rightarrow> py_error + string) \<Rightarrow> entry \<Rightarrow> string \<Rightarrow> string" where
  "summary_of_entry soup_text e ttl =
     (let smry = cleaned_summary soup_text e;
          smry' = (if length smry > 220 then rsplit_head (take 217 smry) @ ''...'' else smry)
      in if smry' = [] then ttl else smry')"

text \<open>
  The loop over the two date fields: the first that parses and renders ends the loop; a
  field whose instant cannot be rendered leaves \<open>date_obj\<close> set and the loop goes on.
\<close>

definition resolve_date :: "entry \<Rightarrow> int option \<times> string" where
  "resolve_date e =
     (case published_parsed e of
        Parsed t s \<Rightarrow> (Some t, s)
      | f \<Rightarrow>
          (let date_obj = (case f of Unformattable t \<Rightarrow> Some t | _ \<Rightarrow> None)
           in case updated_parsed e of
                Parsed t s \<Rightarrow> (Some t, s)
              | Unformattable t \<Rightarrow> (Some t, [])
              | _ \<Rightarrow> (date_obj, [])))"

text \<open>
  The body of the \<open>try\<close> block of \<open>parse_entry\<close>: \<open>Inl\<close> when a statement raises,
  \<open>Inr None\<close> at a \<open>return None\<close>, \<open>Inr (Some a)\<close> when the article is returned.
  \<open>md5_hex\<close> is \<open>hashlib.md5(url.encode()).hexdigest()\<close> and \<open>now\<close> the value of
  \<open>datetime.now()\<close>.  \<open>re.sub\<close> raises on a title that is not a string, and a link
  that is not a string has no \<open>encode\<close>.  The feed configuration has its \<open>source\<close> and
  \<open>geo\<close>, as every entry of \<open>FEEDS\<close> has.
\<close>

definition parse_entry_body ::
  "(string \<Rightarrow> py_error + string) \<Rightarrow> (string \<Rightarrow> string) \<Rightarrow> int \<Rightarrow> entry \<Rightarrow> feed_config
     \<Rightarrow> py_error + article option" where
  "parse_entry_body soup_text md5_hex now e cfg =
     (case get_or_empty (entry_title e) of
        Other b \<Rightarrow> Inl PyException
      | Text raw_title \<Rightarrow>
          (let ttl = clean_text raw_title
           in if ttl = [] \<or> length ttl < 15 then Inr None
              else
                (let link = get_or_empty (entry_link e)
                 in if \<not> truthy link then Inr None
                    else
                      (let smry = summary_of_entry soup_text e ttl;
                           resolved = resolve_date e
                       in if (case fst resolved of
                                Some t \<Rightarrow> days (now - t) > MAX_AGE_DAYS
                              | None \<Rightarrow> False)
                          then Inr None
                          else
                            (case link of
                               Other b \<Rightarrow> Inl PyException
                             | Text u \<Rightarrow>
                                 Inr (Some \<lparr>id_a = take 12 (md5_hex u), title = ttl,
                                   summary = smry, url = u, source = cfg_source cfg,
                                   feed_geo = cfg_geo cfg, geo = [], date = snd resolved,
                                   date_obj = (case fst resolved of
                                                 Some t \<Rightarrow> Stamp t
                                               | None \<Rightarrow> NoStamp),
                                   score = 0\<rparr>))))))"

text \<open>\<open>parse_entry\<close>: the \<open>try\<close> block, with \<open>except Exception: return None\<close>.\<close>

definition parse_entry ::
  "(string \<Rightarrow> py_error + string) \<Rightarrow> (string \<Rightarrow> string) \<Rightarrow> int \<Rightarrow> entry \<Rightarrow> feed_config
     \<Rightarrow> article option" where
  "parse_entry soup_text md5_hex now e cfg =
     (case parse_entry_body soup_text md5_hex now e cfg of
        Inl err \<Rightarrow> None
      | Inr r \<Rightarrow> r)"

text \<open>
  Stand-ins for the two library calls in the examples: markup-free text comes out of
  BeautifulSoup as it went in (\<open>plain_soup\<close>), or BeautifulSoup raises (\<open>raising_soup\<close>);
  the digest here is only some 32 characters (no property below depends on which).
\<close>

definition plain_soup :: "string \<Rightarrow> py_error + string" where
  "plain_soup html = Inr html"

definition raising_soup :: "string \<Rightarrow> py_error + string" where
  "raising_soup html = Inl PyException"

definition some_digest :: "string \<Rightarrow> string" where
  "some_digest u = take 32 (u @ replicate 32 (CHR ''0''))"

definition a_feed :: feed_config where
  "a_feed = \<lparr>cfg_url = ''https://skift.com/feed/'', cfg_source = ''Skift'', cfg_geo = ''global''\<rparr>"

text \<open>An entry whose summary is one word of 221 letters.\<close>

definition long_word_entry :: entry where
  "long_word_entry =
     \<lparr>entry_title = Some (Text ''Tourism board reports record summer''),
      entry_link = Some (Text ''https://example.org/w''),
      entry_summary = Some (replicate 221 (CHR ''a'')), entry_description = None,
      published_parsed = NoField, updated_parsed = NoField\<rparr>"

text \<open>An entry with a title of more than 220 characters and no summary.\<close>

definition long_title :: string where
  "long_title = ''Sustainable tourism strategy for the Danube Delta and the Black Sea coast draws record visitor numbers as the national tourism board, hotel operators and airline partners launch a joint digital campaign across key European source markets this summer''"

definition long_title_entry :: entry where
  "long_title_entry =
     \<lparr>entry_title = Some (Text long_title), entry_link = Some (Text ''https://example.org/t''),
      entry_summary = None, entry_description = None,
      published_parsed = NoField, updated_parsed = NoField\<rparr>"

text \<open>An entry dated 20 days before the instant \<open>20 * 86400000000\<close>, and one without a date.\<close>

definition old_entry :: entry where
  "old_entry =
     \<lparr>entry_title = Some (Text ''Tourism board reports record summer''),
      entry_link = Some (Text ''https://example.org/o''),
      entry_summary = Some ''Visitor numbers rose.'', entry_description = None,
      published_parsed = Parsed 0 ''January 01, 2026'', updated_parsed = NoField\<rparr>"


text \<open>An entry whose summary is a text of 249 characters.\<close>

definition long_summary_entry :: entry where
  "long_summary_entry = old_entry\<lparr>entry_summary := Some long_title, published_parsed := NoField\<rparr>"







text \<open>An entry whose summary is that text inside markup, with runs of whitespace.\<close>

definition tagged_summary_entry :: entry where
  "tagged_summary_entry =
     long_summary_entry\<lparr>entry_summary :=
       Some (''<p>  Sustainable   tourism'' @ drop 19 long_title @ ''</p> '' @ [CHR 0x0A])\<rparr>"


section \<open>Example articles\<close>

definition ex_both :: article where
  "ex_both = \<lparr>id_a = ''0a1b2c3d4e5f'', title = ''Brasov leads European city breaks'',
     summary = ''Bookings rise.'', url = ''https://example.org/a'', source = ''Skift'',
     feed_geo = ''global'', geo = [], date = [], date_obj = NoStamp, score = 0\<rparr>"

definition ex_hinted :: article where
  "ex_hinted = \<lparr>id_a = ''1b2c3d4e5f6a'', title = ''New rail passes announced'',
     summary = ''Fares drop.'', url = ''https://example.org/b'', source = ''Hospitality Net'',
     feed_geo = ''europe'', geo = [], date = [], date_obj = NoStamp, score = 0\<rparr>"

definition ex_clickbait :: article where
  "ex_clickbait = \<lparr>id_a = ''2c3d4e5f6a7b'', title = ''Shocking hotel booking secrets'',
     summary = ''You won't believe it.'', url = ''https://example.org/c'', source = ''Skift'',
     feed_geo = ''global'', geo = ''global'', date = [], date_obj = NoStamp, score = 0\<rparr>"


text \<open>Two articles whose titles give the same key; the second has the higher score.\<close>

definition ex_first :: article where
  "ex_first = \<lparr>id_a = ''3d4e5f6a7b8c'', title = ''EU Tourism Growth Hits Record!'',
     summary = ''A record year.'', url = ''https://example.org/d'', source = ''Skift'',
     feed_geo = ''global'', geo = ''europe'', date = [], date_obj = NoStamp, score = 1\<rparr>"

definition ex_second :: article where
  "ex_second = \<lparr>id_a = ''4e5f6a7b8c9d'', title = ''EU tourism growth hits record'',
     summary = ''Tourism strategy pays off.'', url = ''https://example.org/e'',
     source = ''PhocusWire'', feed_geo = ''global'', geo = ''europe'', date = [],
     date_obj = NoStamp, score = 9\<rparr>"


text \<open>
  The scenario of the specification: four \<open>romania\<close> articles scored 10, 8, 5, 2, two
  \<open>europe\<close> articles scored 9 and 7, and \<open>global\<close> articles scored 20 down to 2, given
  here in no particular order.
\<close>

definition scored :: "string \<Rightarrow> string \<Rightarrow> int \<Rightarrow> article" where
  "scored i g s = \<lparr>id_a = i, title = ''Article number '' @ i, summary = ''Summary.'',
     url = ''https://example.org/'' @ i, source = ''Skift'', feed_geo = ''global'', geo = g,
     date = [], date_obj = NoStamp, score = s\<rparr>"

definition scenario :: "article list" where
  "scenario =
    [scored ''r05'' ''romania'' 5, scored ''e07'' ''europe'' 7, scored ''r10'' ''romania'' 10,
     scored ''g02'' ''global'' 2, scored ''g03'' ''global'' 3, scored ''g04'' ''global'' 4,
     scored ''g05'' ''global'' 5, scored ''g06'' ''global'' 6, scored ''g07'' ''global'' 7,
     scored ''g08'' ''global'' 8, scored ''g09'' ''global'' 9, scored ''g10'' ''global'' 10,
     scored ''g11'' ''global'' 11, scored ''g12'' ''global'' 12, scored ''g13'' ''global'' 13,
     scored ''g14'' ''global'' 14, scored ''g15'' ''global'' 15, scored ''g16'' ''global'' 16,
     scored ''g17'' ''global'' 17, scored ''g18'' ''global'' 18, scored ''g19'' ''global'' 19,
     scored ''g20'' ''global'' 20,
     scored ''r02'' ''romania'' 2, scored ''e09'' ''europe'' 9, scored ''r08'' ''romania'' 8]"

text \<open>One \<open>romania\<close> article and four each of \<open>europe\<close> and \<open>global\<close>.\<close>

definition one_four_four :: "article list" where
  "one_four_four =
    [scored ''r1'' ''romania'' 5,
     scored ''e1'' ''europe'' 9, scored ''e2'' ''europe'' 8, scored ''e3'' ''europe'' 7,
     scored ''e4'' ''europe'' 6,
     scored ''g1'' ''global'' 4, scored ''g2'' ''global'' 3, scored ''g3'' ''global'' 2,
     scored ''g4'' ''global'' 1]"

text \<open>One \<open>romania\<close> article, five \<open>europe\<close> articles and four \<open>global\<close> articles.\<close>

definition one_five_four :: "article list" where
  "one_five_four = one_four_four @ [scored ''e5'' ''europe'' 5]"


text \<open>Three articles of each geography.\<close>

definition three_each :: "article list" where
  "three_each =
    [scored ''g1'' ''global'' 4, scored ''e1'' ''europe'' 9, scored ''r1'' ''romania'' 5,
     scored ''g2'' ''global'' 3, scored ''e2'' ''europe'' 8, scored ''r2'' ''romania'' 4,
     scored ''g3'' ''global'' 2, scored ''e3'' ''europe'' 7, scored ''r3'' ''romania'' 3]"


text \<open>
  An article with three high-value keywords (one of them, \<open>wine tourism\<close>, across the
  join of title and summary), four medium-value keywords and one clickbait phrase, dated
  at the instant 0; and a dated article without any keyword.
\<close>

definition ex_campaign :: article where
  "ex_campaign = \<lparr>id_a = ''5f6a7b8c9d0e'',
     title = ''Tourism Board launches digital campaign for wine'',
     summary = ''Tourism and hotel booking grow. Shocking visitor numbers.'',
     url = ''https://example.org/f'', source = ''Skift'', feed_geo = ''global'',
     geo = ''global'', date = ''January 01, 2026'', date_obj = Stamp 0, score = 0\<rparr>"

definition ex_dated :: article where
  "ex_dated = ex_hinted\<lparr>date := ''January 01, 2026'', date_obj := Stamp 0\<rparr>"

text \<open>
  Two articles whose titles differ in one accented letter (code points 246 and 248), and
  two whose titles agree in the first 50 letters and digits.
\<close>

definition ex_malmo_se :: article where
  "ex_malmo_se = \<lparr>id_a = ''6a7b8c9d0e1f'',
     title = ''Visitors flock to Malm'' @ [CHR 0xF6] @ '' this summer'',
     summary = ''Ferries are full.'', url = ''https://example.org/g'', source = ''Skift'',
     feed_geo = ''europe'', geo = ''europe'', date = [], date_obj = NoStamp, score = 3\<rparr>"

definition ex_malmo_dk :: article where
  "ex_malmo_dk = \<lparr>id_a = ''7b8c9d0e1f2a'',
     title = ''Visitors flock to Malm'' @ [CHR 0xF8] @ '' this summer'',
     summary = ''The bridge is busy.'', url = ''https://example.org/h'', source = ''PhocusWire'',
     feed_geo = ''europe'', geo = ''europe'', date = [], date_obj = NoStamp, score = 5\<rparr>"

definition ex_long_a :: article where
  "ex_long_a = \<lparr>id_a = ''8c9d0e1f2a3b'',
     title = ''Sustainable tourism strategy for the Danube Delta and the Black Sea coast'',
     summary = ''A ten-year plan.'', url = ''https://example.org/i'', source = ''Skift'',
     feed_geo = ''global'', geo = ''romania'', date = [], date_obj = NoStamp, score = 9\<rparr>"

definition ex_long_b :: article where
  "ex_long_b = \<lparr>id_a = ''9d0e1f2a3b4c'',
     title = ''Sustainable tourism strategy for the Danube Delta and the Baltic shore'',
     summary = ''Two regions compared.'', url = ''https://example.org/j'', source = ''Skift'',
     feed_geo = ''global'', geo = ''romania'', date = [], date_obj = NoStamp, score = 9\<rparr>"

text \<open>
  Six \<open>europe\<close> and three \<open>global\<close> articles; and the list \<open>one_five_four\<close> with the
  id of the fourth \<open>europe\<close> article replaced by that of the first.
\<close>

definition six_europe :: "article list" where
  "six_europe =
    [scored ''g1'' ''global'' 4, scored ''e6'' ''europe'' 1, scored ''e1'' ''europe'' 9,
     scored ''e2'' ''europe'' 8, scored ''g2'' ''global'' 3, scored ''e3'' ''europe'' 7,
     scored ''e4'' ''europe'' 6, scored ''g3'' ''global'' 2, scored ''e5'' ''europe'' 5]"

definition repeated_id :: "article list" where
  "repeated_id =
    [scored ''r1'' ''romania'' 5,
     scored ''e1'' ''europe'' 9, scored ''e2'' ''europe'' 8, scored ''e3'' ''europe'' 7,
     (scored ''e4'' ''europe'' 6)\<lparr>id_a := ''e1''\<rparr>,
     scored ''g1'' ''global'' 4, scored ''g2'' ''global'' 3, scored ''g3'' ''global'' 2,
     scored ''g4'' ''global'' 1, scored ''e5'' ''europe'' 5]"


section \<open>Properties of classification and scoring\<close>

lemma hits_pos_iff: "hits kws txt \<ge> 1 \<longleftrightarrow> (\<exists>kw \<in> set kws. contains kw txt)"
proof -
  have "hits kws txt \<ge> 1 \<longleftrightarrow> filter (\<lambda>kw. contains kw txt) kws \<noteq> []"
    unfolding hits_def by (cases "filter (\<lambda>kw. contains kw txt) kws") simp_all
  also have "\<dots> \<longleftrightarrow> (\<exists>kw \<in> set kws. contains kw txt)"
    by (simp add: filter_empty_conv)
  finally show ?thesis .
qed

text \<open>
  C4.  The geography that \<open>classify_geography\<close> sets: \<open>romania\<close> when the lowercased
  title, space and summary contain a Romania keyword; otherwise \<open>europe\<close> when they
  contain a Europe keyword; otherwise the feed hint when it is \<open>romania\<close> or \<open>europe\<close>;
  otherwise \<open>global\<close>.
\<close>

theorem classify_geography_priority:
  "geo (classify_geography a) =
     (if \<exists>kw \<in> set GEO_ROMANIA_KEYWORDS. contains kw (lower (title a @ '' '' @ summary a))
      then ''romania''
      else if \<exists>kw \<in> set GEO_EUROPE_KEYWORDS. contains kw (lower (title a @ '' '' @ summary a))
      then ''europe''
      else if feed_geo a = ''romania'' \<or> feed_geo a = ''europe'' then feed_geo a
      else ''global'')"
  unfolding classify_geography_def Let_def hits_pos_iff article_text_def
  by auto

lemma ex_both_keywords:
  "contains ''brasov'' (lower (title ex_both @ '' '' @ summary ex_both))"
  "contains ''europe'' (lower (title ex_both @ '' '' @ summary ex_both))"
  by code_simp+

lemma ex_hinted_no_keyword:
  "hits GEO_ROMANIA_KEYWORDS (lower (title ex_hinted @ '' '' @ summary ex_hinted)) = 0"
  "hits GEO_EUROPE_KEYWORDS (lower (title ex_hinted @ '' '' @ summary ex_hinted)) = 0"
  by code_simp+

text \<open>
  An article naming Brasov and Europe is classified \<open>romania\<close>; one matching no keyword,
  from a feed hinted \<open>europe\<close>, is classified \<open>europe\<close>.
\<close>

theorem classify_geography_priority_witness:
  "geo (classify_geography ex_both) = ''romania'' \<and>
   geo (classify_geography ex_hinted) = ''europe''"
proof -
  have ro: "''brasov'' \<in> set GEO_ROMANIA_KEYWORDS"
    by (simp add: GEO_ROMANIA_KEYWORDS_def)
  have "geo (classify_geography ex_both) = ''romania''"
    using classify_geography_priority [of ex_both] ro ex_both_keywords(1) by auto
  moreover have "\<not> (\<exists>kw \<in> set GEO_ROMANIA_KEYWORDS.
      contains kw (lower (title ex_hinted @ '' '' @ summary ex_hinted)))"
    using ex_hinted_no_keyword(1) by (simp add: hits_pos_iff [symmetric])
  moreover have "\<not> (\<exists>kw \<in> set GEO_EUROPE_KEYWORDS.
      contains kw (lower (title ex_hinted @ '' '' @ summary ex_hinted)))"
    using ex_hinted_no_keyword(2) by (simp add: hits_pos_iff [symmetric])
  moreover have "feed_geo ex_hinted = ''europe''"
    by (simp add: ex_hinted_def)
  ultimately show ?thesis
    using classify_geography_priority [of ex_hinted] by simp
qed

lemma add_matches_count:
  "add_matches w kws txt s0 = s0 + w * int (length (filter (\<lambda>kw. contains kw txt) kws))"
  unfolding add_matches_def
  by (induction kws arbitrary: s0) (simp_all add: algebra_simps)

lemma keyword_lists_distinct:
  "distinct KEYWORDS_HIGH_VALUE" "distinct KEYWORDS_MEDIUM_VALUE" "distinct CLICKBAIT"
  by code_simp+

lemma count_card: "distinct kws \<Longrightarrow> length (filter P kws) = card {kw \<in> set kws. P kw}"
  by (simp add: distinct_length_filter Int_def conj_commute)

text \<open>
  The age in whole days is at most \<open>n\<close> exactly when less than \<open>n + 1\<close> days have
  passed.
\<close>

lemma days_le_iff: "days d \<le> n \<longleftrightarrow> d < (n + 1) * 86400000000"
proof -
  define q where "q = d div 86400000000"
  define r where "r = d mod 86400000000"
  have "d = 86400000000 * q + r" "0 \<le> r" "r < 86400000000"
    by (simp_all add: q_def r_def)
  then have "q \<le> n \<longleftrightarrow> d < (n + 1) * 86400000000"
    by (auto simp: algebra_simps)
  then show ?thesis
    by (simp add: days_def q_def)
qed

lemma recency_bonus_elapsed:
  "recency_bonus now d =
     (case d of
        Stamp t \<Rightarrow>
          if now - t < 2 * 86400000000 then 6
          else if now - t < 4 * 86400000000 then 4
          else if now - t < 8 * 86400000000 then 2 else 0
      | _ \<Rightarrow> 0)"
  by (simp add: recency_bonus_def Let_def days_le_iff split: stamp.splits)

text \<open>
  C5 (as amended).  The score that \<open>score_article\<close> sets is the maximum of 0 and: 4 for
  each high-value keyword that the lowercased title, space and summary contain, 1 for each
  medium-value keyword, the recency bonus, less 5 for each clickbait phrase; each keyword
  counts once.  The bonus goes by the age in whole days, the time since the timestamp
  divided by one day and rounded down: 6 when it is at most 1, which is when less than two
  days have passed, 4 when at most 3 (less than four days), 2 when at most 7 (less than
  eight days), and 0 when it is more, when no timestamp is present, or when the timestamp
  is not the ISO string of a naive instant.  The score is never negative.
\<close>

theorem score_article_formula:
  "score (score_article now a) =
     max 0 (4 * int (card {kw \<in> set KEYWORDS_HIGH_VALUE.
                            contains kw (lower (title a @ '' '' @ summary a))})
          + int (card {kw \<in> set KEYWORDS_MEDIUM_VALUE.
                        contains kw (lower (title a @ '' '' @ summary a))})
          + (case date_obj a of
               Stamp t \<Rightarrow>
                 if now - t < 2 * 86400000000 then 6
                 else if now - t < 4 * 86400000000 then 4
                 else if now - t < 8 * 86400000000 then 2 else 0
             | NoStamp \<Rightarrow> 0 | AwareStamp t \<Rightarrow> 0 | BadStamp \<Rightarrow> 0)
          - 5 * int (card {cb \<in> set CLICKBAIT.
                            contains cb (lower (title a @ '' '' @ summary a))}))
   \<and> score (score_article now a) \<ge> 0
   \<and> (days (now - t) \<le> 1) = (now - t < 2 * 86400000000)
   \<and> (days (now - t) \<le> 3) = (now - t < 4 * 86400000000)
   \<and> (days (now - t) \<le> 7) = (now - t < 8 * 86400000000)"
proof -
  have "recency_bonus now (date_obj a) =
      (case date_obj a of
         Stamp t \<Rightarrow>
           if now - t < 2 * 86400000000 then 6
           else if now - t < 4 * 86400000000 then 4
           else if now - t < 8 * 86400000000 then 2 else 0
       | NoStamp \<Rightarrow> 0 | AwareStamp t \<Rightarrow> 0 | BadStamp \<Rightarrow> 0)"
    by (simp add: recency_bonus_elapsed split: stamp.splits)
  then have "score (score_article now a) =
     max 0 (4 * int (card {kw \<in> set KEYWORDS_HIGH_VALUE.
                            contains kw (lower (title a @ '' '' @ summary a))})
          + int (card {kw \<in> set KEYWORDS_MEDIUM_VALUE.
                        contains kw (lower (title a @ '' '' @ summary a))})
          + (case date_obj a of
               Stamp t \<Rightarrow>
                 if now - t < 2 * 86400000000 then 6
                 else if now - t < 4 * 86400000000 then 4
                 else if now - t < 8 * 86400000000 then 2 else 0
             | NoStamp \<Rightarrow> 0 | AwareStamp t \<Rightarrow> 0 | BadStamp \<Rightarrow> 0)
          - 5 * int (card {cb \<in> set CLICKBAIT.
                            contains cb (lower (title a @ '' '' @ summary a))}))"
    unfolding score_article_def Let_def add_matches_count article_text_def
    by (simp add: count_card keyword_lists_distinct max.commute)
  moreover have "score (score_article now a) \<ge> 0"
    by (simp add: score_article_def Let_def)
  ultimately show ?thesis
    by (simp add: days_le_iff)
qed

lemma ex_campaign_counts:
  "length (filter (\<lambda>kw. contains kw (lower (title ex_campaign @ '' '' @ summary ex_campaign)))
     KEYWORDS_HIGH_VALUE) = 3"
  "length (filter (\<lambda>kw. contains kw (lower (title ex_campaign @ '' '' @ summary ex_campaign)))
     KEYWORDS_MEDIUM_VALUE) = 4"
  "length (filter (\<lambda>kw. contains kw (lower (title ex_campaign @ '' '' @ summary ex_campaign)))
     CLICKBAIT) = 1"
  by code_simp+

lemma ex_clickbait_counts:
  "length (filter (\<lambda>kw. contains kw (lower (title ex_clickbait @ '' '' @ summary ex_clickbait)))
     KEYWORDS_HIGH_VALUE) = 0"
  "length (filter (\<lambda>kw. contains kw (lower (title ex_clickbait @ '' '' @ summary ex_clickbait)))
     KEYWORDS_MEDIUM_VALUE) = 2"
  "length (filter (\<lambda>kw. contains kw (lower (title ex_clickbait @ '' '' @ summary ex_clickbait)))
     CLICKBAIT) = 2"
  by code_simp+

text \<open>
  An article with three high-value keywords, four medium-value keywords and one clickbait
  phrase scores \<open>12 + 4 - 5 = 11\<close> and the bonus: 17 up to the last instant of its second
  day, 15 up to the last of its fourth, 13 up to the last of its eighth, 11 from then on,
  and 11 without a timestamp that can be read.  An undated article with two medium-value
  keywords and two clickbait phrases scores 0.
\<close>

theorem score_article_formula_witness:
  "score (score_article 0 ex_campaign) = 17 \<and>
   score (score_article (2 * 86400000000 - 1) ex_campaign) = 17 \<and>
   score (score_article (2 * 86400000000) ex_campaign) = 15 \<and>
   score (score_article (4 * 86400000000 - 1) ex_campaign) = 15 \<and>
   score (score_article (4 * 86400000000) ex_campaign) = 13 \<and>
   score (score_article (8 * 86400000000 - 1) ex_campaign) = 13 \<and>
   score (score_article (8 * 86400000000) ex_campaign) = 11 \<and>
   score (score_article 0 (ex_campaign\<lparr>date_obj := AwareStamp 0\<rparr>)) = 11 \<and>
   score (score_article 0 (ex_campaign\<lparr>date_obj := BadStamp\<rparr>)) = 11 \<and>
   score (score_article 0 (ex_campaign\<lparr>date_obj := NoStamp\<rparr>)) = 11 \<and>
   score (score_article 0 ex_clickbait) = 0"
proof -
  have d: "date_obj ex_campaign = Stamp 0" "date_obj ex_clickbait = NoStamp"
    by (simp_all add: ex_campaign_def ex_clickbait_def)
  have c: "card {kw \<in> set KEYWORDS_HIGH_VALUE.
        contains kw (lower (title ex_campaign @ '' '' @ summary ex_campaign))} = 3"
    "card {kw \<in> set KEYWORDS_MEDIUM_VALUE.
        contains kw (lower (title ex_campaign @ '' '' @ summary ex_campaign))} = 4"
    "card {kw \<in> set CLICKBAIT.
        contains kw (lower (title ex_campaign @ '' '' @ summary ex_campaign))} = 1"
    "card {kw \<in> set KEYWORDS_HIGH_VALUE.
        contains kw (lower (title ex_clickbait @ '' '' @ summary ex_clickbait))} = 0"
    "card {kw \<in> set KEYWORDS_MEDIUM_VALUE.
        contains kw (lower (title ex_clickbait @ '' '' @ summary ex_clickbait))} = 2"
    "card {kw \<in> set CLICKBAIT.
        contains kw (lower (title ex_clickbait @ '' '' @ summary ex_clickbait))} = 2"
    using ex_campaign_counts ex_clickbait_counts
    by (simp_all only: count_card [OF keyword_lists_distinct(1)]
          count_card [OF keyword_lists_distinct(2)] count_card [OF keyword_lists_distinct(3)])
  have "score (score_article 0 ex_clickbait) = 0"
    using score_article_formula [of 0 ex_clickbait 0, unfolded c d] by simp
  then show ?thesis
    using score_article_formula [of 0 ex_campaign 0]
      score_article_formula [of "2 * 86400000000 - 1" ex_campaign 0]
      score_article_formula [of "2 * 86400000000" ex_campaign 0]
      score_article_formula [of "4 * 86400000000 - 1" ex_campaign 0]
      score_article_formula [of "4 * 86400000000" ex_campaign 0]
      score_article_formula [of "8 * 86400000000 - 1" ex_campaign 0]
      score_article_formula [of "8 * 86400000000" ex_campaign 0]
      score_article_formula [of 0 "ex_campaign\<lparr>date_obj := AwareStamp 0\<rparr>" 0]
      score_article_formula [of 0 "ex_campaign\<lparr>date_obj := BadStamp\<rparr>" 0]
      score_article_formula [of 0 "ex_campaign\<lparr>date_obj := NoStamp\<rparr>" 0]
      c(1-3) d(1)
    by simp
qed

lemma ex_dated_no_keyword:
  "hits KEYWORDS_HIGH_VALUE (lower (title ex_dated @ '' '' @ summary ex_dated)) = 0"
  "hits KEYWORDS_MEDIUM_VALUE (lower (title ex_dated @ '' '' @ summary ex_dated)) = 0"
  "hits CLICKBAIT (lower (title ex_dated @ '' '' @ summary ex_dated)) = 0"
  by code_simp+

text \<open>
  An article without any keyword, a day and a half old: its age is more than one day and
  at most three, for which the claim as first stated gives the bonus 4; its age in whole
  days is 1, and the score is 6.  The same article with a timestamp that carries a UTC
  offset, at age 0: the claim as first stated gives the bonus 6, and the score is 0.
\<close>

theorem recency_counterexample:
  "date_obj ex_dated = Stamp 0 \<and>
   hits KEYWORDS_HIGH_VALUE (lower (title ex_dated @ '' '' @ summary ex_dated)) = 0 \<and>
   hits KEYWORDS_MEDIUM_VALUE (lower (title ex_dated @ '' '' @ summary ex_dated)) = 0 \<and>
   hits CLICKBAIT (lower (title ex_dated @ '' '' @ summary ex_dated)) = 0 \<and>
   1 * 86400000000 < (129600000000 - 0 :: int) \<and>
   (129600000000 - 0 :: int) \<le> 3 * 86400000000 \<and>
   days (129600000000 - 0) = 1 \<and>
   score (score_article 129600000000 ex_dated) = 6 \<and>
   score (score_article 0 (ex_dated\<lparr>date_obj := AwareStamp 0\<rparr>)) = 0"
proof -
  have "date_obj ex_dated = Stamp 0"
    by (simp add: ex_dated_def)
  moreover have "days (129600000000 - 0) = 1"
    by (simp add: days_def)
  moreover have "score (score_article 129600000000 ex_dated) = 6"
    by code_simp
  moreover have "score (score_article 0 (ex_dated\<lparr>date_obj := AwareStamp 0\<rparr>)) = 0"
    by code_simp
  ultimately show ?thesis
    using ex_dated_no_keyword by simp
qed

text \<open>
  C10.  \<open>classify_geography\<close> returns the article it was given with only \<open>geo\<close>
  replaced, and \<open>score_article\<close> returns it with only \<open>score\<close> replaced: every other
  field is as it was.
\<close>

theorem classify_score_frame:
  "classify_geography a = a\<lparr>geo := geo (classify_geography a)\<rparr> \<and>
   score_article now a = a\<lparr>score := score (score_article now a)\<rparr> \<and>
   id_a (classify_geography a) = id_a a \<and> id_a (score_article now a) = id_a a \<and>
   title (classify_geography a) = title a \<and> title (score_article now a) = title a \<and>
   summary (classify_geography a) = summary a \<and> summary (score_article now a) = summary a \<and>
   url (classify_geography a) = url a \<and> url (score_article now a) = url a \<and>
   source (classify_geography a) = source a \<and> source (score_article now a) = source a \<and>
   feed_geo (classify_geography a) = feed_geo a \<and> feed_geo (score_article now a) = feed_geo a \<and>
   date (classify_geography a) = date a \<and> date (score_article now a) = date a \<and>
   date_obj (classify_geography a) = date_obj a \<and> date_obj (score_article now a) = date_obj a \<and>
   score (classify_geography a) = score a \<and> geo (score_article now a) = geo a"
  by (simp add: classify_geography_def score_article_def Let_def)


section \<open>Properties of deduplication\<close>

lemma dedup_seen: "fst (foldl dedup_step (S, U) xs) = S \<union> dedup_key ` set xs"
  by (induction xs arbitrary: S U) (auto simp: dedup_step_def Let_def)

lemma deduplicate_snoc:
  "deduplicate (xs @ [x]) =
     deduplicate xs @ (if dedup_key x \<in> dedup_key ` set xs then [] else [x])"
proof -
  have "fst (foldl dedup_step ({}, []) xs) = dedup_key ` set xs"
    by (simp add: dedup_seen)
  then show ?thesis
    by (simp add: deduplicate_def dedup_step_def Let_def)
qed

lemma deduplicate_Nil: "deduplicate [] = []"
  by (simp add: deduplicate_def)

lemma deduplicate_indices:
  "deduplicate articles =
     map (\<lambda>i. articles ! i)
       (filter (\<lambda>i. dedup_key (articles ! i) \<notin> dedup_key ` set (take i articles))
          [0..<length articles])"
proof (induction articles rule: rev_induct)
  case Nil
  show ?case by (simp add: deduplicate_Nil)
next
  case (snoc x xs)
  let ?new = "\<lambda>ys i. dedup_key (ys ! i) \<notin> dedup_key ` set (take i ys)"
  have idx: "filter (?new (xs @ [x])) [0..<length xs] = filter (?new xs) [0..<length xs]"
    by (rule filter_cong) (simp_all add: nth_append)
  have m: "map (\<lambda>i. (xs @ [x]) ! i) (filter (?new xs) [0..<length xs])
      = map (\<lambda>i. xs ! i) (filter (?new xs) [0..<length xs])"
    by (rule map_cong) (simp_all add: nth_append)
  have last: "?new (xs @ [x]) (length xs) \<longleftrightarrow> dedup_key x \<notin> dedup_key ` set xs"
    by simp
  have "map (\<lambda>i. (xs @ [x]) ! i) (filter (?new (xs @ [x])) [0..<length (xs @ [x])])
      = map (\<lambda>i. (xs @ [x]) ! i) (filter (?new (xs @ [x])) [0..<length xs])
        @ map (\<lambda>i. (xs @ [x]) ! i) (filter (?new (xs @ [x])) [length xs])"
    by simp
  also have "\<dots> = deduplicate xs @ map (\<lambda>i. (xs @ [x]) ! i) (filter (?new (xs @ [x])) [length xs])"
    unfolding idx m snoc.IH [symmetric] ..
  also have "\<dots> = deduplicate xs @ (if dedup_key x \<in> dedup_key ` set xs then [] else [x])"
    using last by simp
  finally show ?case
    by (simp only: deduplicate_snoc)
qed

lemma deduplicate_per_key:
  "filter (\<lambda>a. dedup_key a = k) (deduplicate articles) =
     take 1 (filter (\<lambda>a. dedup_key a = k) articles)"
proof (induction articles rule: rev_induct)
  case Nil
  show ?case by (simp add: deduplicate_Nil)
next
  case (snoc x xs)
  show ?case
  proof (cases "dedup_key x = k")
    case False
    then show ?thesis by (simp add: deduplicate_snoc snoc.IH)
  next
    case True
    show ?thesis
    proof (cases "k \<in> dedup_key ` set xs")
      case True
      then have "filter (\<lambda>a. dedup_key a = k) xs \<noteq> []"
        by (auto simp: filter_empty_conv)
      then obtain y ys where "filter (\<lambda>a. dedup_key a = k) xs = y # ys"
        by (cases "filter (\<lambda>a. dedup_key a = k) xs") auto
      then show ?thesis
        using True \<open>dedup_key x = k\<close> by (simp add: deduplicate_snoc snoc.IH)
    next
      case False
      then have "filter (\<lambda>a. dedup_key a = k) xs = []"
        by (auto simp: filter_empty_conv)
      then show ?thesis
        using False \<open>dedup_key x = k\<close> by (simp add: deduplicate_snoc snoc.IH)
    qed
  qed
qed

lemma is_az09_iff: "is_az09 c \<longleftrightarrow> c \<in> set ''abcdefghijklmnopqrstuvwxyz0123456789''"
proof -
  have "c \<in> set ''abcdefghijklmnopqrstuvwxyz0123456789''
      \<longleftrightarrow> (of_char c :: nat) \<in> of_char ` set ''abcdefghijklmnopqrstuvwxyz0123456789''"
    by (auto simp only: image_iff of_char_eq_iff)
  also have "\<dots> \<longleftrightarrow> (97 \<le> (of_char c :: nat) \<and> (of_char c :: nat) \<le> 122)
      \<or> (48 \<le> (of_char c :: nat) \<and> (of_char c :: nat) \<le> 57)"
    by (simp del: of_char_eq_iff) arith
  finally show ?thesis
    by (simp add: is_az09_def Let_def)
qed

text \<open>
  C6 (as amended).  The key of an article is its lowercased title without every character
  other than the letters \<open>a\<close> to \<open>z\<close> and the digits, accented letters included, cut to
  50 characters.  \<open>deduplicate\<close> keeps, in input order, exactly the articles at the
  positions whose key occurs at no earlier position.  Of the articles of one key, the
  output holds the first and no other.  On two articles \<open>A\<close> then \<open>B\<close> of the same key
  the output is \<open>A\<close> alone; the scores play no part.
\<close>

theorem deduplicate_first_wins:
  "dedup_key A =
     take 50 (filter (\<lambda>c. c \<in> set ''abcdefghijklmnopqrstuvwxyz0123456789'') (lower (title A)))
   \<and> deduplicate articles =
       map (\<lambda>i. articles ! i)
         (filter (\<lambda>i. dedup_key (articles ! i) \<notin> dedup_key ` set (take i articles))
            [0..<length articles])
   \<and> filter (\<lambda>a. dedup_key a = k) (deduplicate articles) =
       take 1 (filter (\<lambda>a. dedup_key a = k) articles)
   \<and> deduplicate [A, B] = (if dedup_key A = dedup_key B then [A] else [A, B])"
proof -
  have "filter is_az09 (lower (title A)) =
      filter (\<lambda>c. c \<in> set ''abcdefghijklmnopqrstuvwxyz0123456789'') (lower (title A))"
    by (rule filter_cong [OF refl]) (rule is_az09_iff)
  then have "dedup_key A =
      take 50 (filter (\<lambda>c. c \<in> set ''abcdefghijklmnopqrstuvwxyz0123456789'') (lower (title A)))"
    by (simp only: dedup_key_def)
  moreover have "deduplicate [A, B] = (if dedup_key A = dedup_key B then [A] else [A, B])"
    by (simp add: deduplicate_def dedup_step_def Let_def)
  ultimately show ?thesis
    using deduplicate_indices [of articles] deduplicate_per_key [of k articles]
    by blast
qed

lemma ex_keys:
  "dedup_key ex_first = ''eutourismgrowthhitsrecord''"
  "dedup_key ex_second = ''eutourismgrowthhitsrecord''"
  "dedup_key ex_both = ''brasovleadseuropeancitybreaks''"
  "dedup_key ex_hinted = ''newrailpassesannounced''"
  "dedup_key ex_malmo_se = ''visitorsflocktomalmthissummer''"
  "dedup_key ex_malmo_dk = ''visitorsflocktomalmthissummer''"
  "dedup_key ex_long_a = ''sustainabletourismstrategyforthedanubedeltaandtheb''"
  "dedup_key ex_long_b = ''sustainabletourismstrategyforthedanubedeltaandtheb''"
  by code_simp+

text \<open>
  Nine articles of five keys: the first of each key is kept, in input order.  The
  articles left out differ from the one kept in case and punctuation, in an accented
  letter, after the 50th character of the key, or not at all; the one kept in place of
  \<open>ex_second\<close> has the lower score.
\<close>

theorem deduplicate_first_wins_witness:
  "deduplicate [ex_first, ex_both, ex_second, ex_hinted, ex_malmo_se, ex_malmo_dk, ex_both,
      ex_long_a, ex_long_b]
     = [ex_first, ex_both, ex_hinted, ex_malmo_se, ex_long_a] \<and>
   deduplicate [ex_first, ex_second] = [ex_first] \<and>
   deduplicate [ex_first, ex_both] = [ex_first, ex_both] \<and>
   score ex_first < score ex_second \<and>
   dedup_key ex_malmo_dk = ''visitorsflocktomalmthissummer'' \<and>
   dedup_key ex_long_b = ''sustainabletourismstrategyforthedanubedeltaandtheb''"
proof -
  have s: "score ex_first < score ex_second"
    by (simp add: ex_first_def ex_second_def)
  have n: "[0..<9] = [0, 1, 2, 3, 4, 5, 6, 7, 8]"
    by (simp add: upt_rec)
  have "deduplicate [ex_first, ex_both, ex_second, ex_hinted, ex_malmo_se, ex_malmo_dk, ex_both,
      ex_long_a, ex_long_b]
     = [ex_first, ex_both, ex_hinted, ex_malmo_se, ex_long_a]"
    using deduplicate_first_wins [of ex_first "[ex_first, ex_both, ex_second, ex_hinted,
        ex_malmo_se, ex_malmo_dk, ex_both, ex_long_a, ex_long_b]" "[]" ex_second]
    by (simp add: n ex_keys)
  moreover have "deduplicate [ex_first, ex_second] = [ex_first]"
    using deduplicate_first_wins [of ex_first "[]" "[]" ex_second] by (simp add: ex_keys)
  moreover have "deduplicate [ex_first, ex_both] = [ex_first, ex_both]"
    using deduplicate_first_wins [of ex_first "[]" "[]" ex_both] by (simp add: ex_keys)
  ultimately show ?thesis
    using s ex_keys(6,8) by simp
qed

text \<open>
  Two titles that differ in one accented letter.  Both letters are alphanumeric, so the
  keys in the words of the claim as first stated differ and it keeps both articles;
  \<open>deduplicate\<close> drops the letters from the key and keeps only the first article.
\<close>

theorem dedup_key_counterexample:
  "title ex_malmo_se \<noteq> title ex_malmo_dk \<and>
   alnum_key ex_malmo_se = ''visitorsflocktomalm'' @ [CHR 0xF6] @ ''thissummer'' \<and>
   alnum_key ex_malmo_dk = ''visitorsflocktomalm'' @ [CHR 0xF8] @ ''thissummer'' \<and>
   alnum_key ex_malmo_se \<noteq> alnum_key ex_malmo_dk \<and>
   deduplicate [ex_malmo_se, ex_malmo_dk] = [ex_malmo_se]"
  by code_simp


section \<open>Properties of balanced selection\<close>

lemma interleave_step_eq:
  "interleave_step ro eu gl final i =
     final @ take 1 (drop i ro) @ take 1 (drop i eu) @ take 1 (drop i gl)"
  by (simp add: interleave_step_def Let_def take_Suc_conv_app_nth drop_all
        Cons_nth_drop_Suc [symmetric])

lemma foldl_interleave:
  "foldl (interleave_step ro eu gl) acc is =
     acc @ concat (map (\<lambda>i. take 1 (drop i ro) @ take 1 (drop i eu) @ take 1 (drop i gl)) is)"
  by (induction "is" arbitrary: acc) (simp_all add: interleave_step_eq)

lemma interleave_concat:
  "interleave ro eu gl =
     concat (map (\<lambda>i. take 1 (drop i ro) @ take 1 (drop i eu) @ take 1 (drop i gl))
       [0..<max (length ro) (max (length eu) (length gl))])"
  by (simp add: interleave_def Let_def foldl_interleave)

lemma interleave_333:
  "interleave [r1, r2, r3] [e1, e2, e3] [g1, g2, g3] = [r1, e1, g1, r2, e2, g2, r3, e3, g3]"
  by (simp add: interleave_concat upt_rec numeral_3_eq_3)

lemma sum_min_below: "m \<le> n \<Longrightarrow> (\<Sum>i\<leftarrow>[0..<m]. min (n - i) (Suc 0)) = m"
  by (induction m) simp_all

lemma sum_min_above: "n \<le> m \<Longrightarrow> (\<Sum>i\<leftarrow>[0..<m]. min (n - i) (Suc 0)) = n"
proof (induction m)
  case 0 then show ?case by simp
next
  case (Suc m)
  show ?case
  proof (cases "n \<le> m")
    case True
    then show ?thesis using Suc.IH by simp
  next
    case False
    then have "n = Suc m" using Suc.prems by simp
    then show ?thesis using sum_min_below [of m n] by simp
  qed
qed

lemma length_interleave: "length (interleave ro eu gl) = length ro + length eu + length gl"
proof -
  let ?m = "max (length ro) (max (length eu) (length gl))"
  have "length (interleave ro eu gl) =
      (\<Sum>i\<leftarrow>[0..<?m]. min (length ro - i) (Suc 0) +
         (min (length eu - i) (Suc 0) + min (length gl - i) (Suc 0)))"
    by (simp add: interleave_concat length_concat comp_def del: upt_Suc)
  also have "\<dots> = (\<Sum>i\<leftarrow>[0..<?m]. min (length ro - i) (Suc 0))
      + ((\<Sum>i\<leftarrow>[0..<?m]. min (length eu - i) (Suc 0))
         + (\<Sum>i\<leftarrow>[0..<?m]. min (length gl - i) (Suc 0)))"
    by (simp only: sum_list_addf)
  also have "\<dots> = length ro + length eu + length gl"
    by (simp add: sum_min_above)
  finally show ?thesis .
qed

lemma filter_not_in_take:
  assumes "distinct xs"
  shows "filter (\<lambda>x. x \<notin> set (take n xs)) xs = drop n xs"
proof -
  let ?P = "\<lambda>x. x \<notin> set (take n xs)"
  have disj: "set (take n xs) \<inter> set (drop n xs) = {}"
    using assms by (rule set_take_disj_set_drop_if_distinct) simp
  have fr: "filter ?P (take n xs) = []"
    by (simp add: filter_empty_conv)
  have bk: "filter ?P (drop n xs) = drop n xs"
    using disj by (auto simp: filter_id_conv)
  have "filter ?P xs = filter ?P (take n xs) @ filter ?P (drop n xs)"
    by (metis append_take_drop_id filter_append)
  then show ?thesis
    by (simp only: fr bk append_Nil)
qed

lemma set_bucket: "set (bucket g articles) = {a \<in> set articles. geo a = g}"
  by (auto simp: bucket_def sort_by_score_def)

lemma distinct_bucket: "distinct articles \<Longrightarrow> distinct (bucket g articles)"
  by (simp add: bucket_def sort_by_score_def)

lemma length_bucket: "length (bucket g articles) = length (filter (\<lambda>a. geo a = g) articles)"
  by (simp add: bucket_def sort_by_score_def)

text \<open>The unused articles of one geography are the rest of its bucket.\<close>

lemma overflow_of_bucket:
  assumes ids: "distinct (map id_a articles)"
    and others: "\<And>a. a \<in> set picked_other \<Longrightarrow> geo a \<noteq> g"
    and sub: "set picked_other \<subseteq> set articles"
  shows "filter (\<lambda>a. geo a = g)
           (sort_by_score (filter (\<lambda>a. id_a a \<notin> id_a ` (set (take n (bucket g articles)) \<union> set picked_other)) articles))
         = drop n (bucket g articles)"
proof -
  let ?B = "bucket g articles"
  let ?used = "set (take n ?B) \<union> set picked_other"
  have inj: "inj_on id_a (set articles)"
    using ids by (simp add: distinct_map)
  have dist: "distinct articles"
    using ids by (simp add: distinct_map)
  have tsub: "set (take n ?B) \<subseteq> set articles"
    using set_take_subset [of n ?B] by (auto simp: set_bucket)
  have eq: "\<And>a. a \<in> set articles \<Longrightarrow> geo a = g \<Longrightarrow>
      (id_a a \<notin> id_a ` ?used) = (a \<notin> set (take n ?B))"
  proof -
    fix a assume a: "a \<in> set articles" and ga: "geo a = g"
    have "id_a a \<in> id_a ` ?used \<longleftrightarrow> a \<in> ?used"
      using inj a tsub sub by (auto dest: inj_onD)
    also have "\<dots> \<longleftrightarrow> a \<in> set (take n ?B)"
      using others ga by auto
    finally show "(id_a a \<notin> id_a ` ?used) = (a \<notin> set (take n ?B))" by simp
  qed
  have "filter (\<lambda>a. geo a = g) (sort_by_score (filter (\<lambda>a. id_a a \<notin> id_a ` ?used) articles))
      = sort_by_score (filter (\<lambda>a. geo a = g \<and> id_a a \<notin> id_a ` ?used) articles)"
    by (simp add: sort_by_score_def filter_sort conj_commute)
  also have "filter (\<lambda>a. geo a = g \<and> id_a a \<notin> id_a ` ?used) articles
      = filter (\<lambda>a. geo a = g \<and> a \<notin> set (take n ?B)) articles"
  proof (rule filter_cong [OF refl])
    fix a assume "a \<in> set articles"
    then show "(geo a = g \<and> id_a a \<notin> id_a ` ?used) = (geo a = g \<and> a \<notin> set (take n ?B))"
      using eq [of a] by blast
  qed
  also have "sort_by_score (filter (\<lambda>a. geo a = g \<and> a \<notin> set (take n ?B)) articles)
      = filter (\<lambda>a. a \<notin> set (take n ?B)) ?B"
    by (simp add: sort_by_score_def bucket_def filter_sort)
  also have "\<dots> = drop n ?B"
    using dist by (simp add: filter_not_in_take distinct_bucket)
  finally show ?thesis .
qed

lemma in_take_bucket:
  "a \<in> set (take n (bucket g articles)) \<Longrightarrow> a \<in> set articles \<and> geo a = g"
  using set_take_subset [of n "bucket g articles"] by (auto simp: set_bucket)

lemma in_drop_bucket:
  "a \<in> set (drop n (bucket g articles)) \<Longrightarrow> a \<in> set articles \<and> geo a = g"
  using set_drop_subset [of n "bucket g articles"] by (auto simp: set_bucket)

lemma overflow_ordered_buckets:
  assumes ids: "distinct (map id_a articles)"
  shows "overflow_ordered articles
           (take 3 (bucket ''romania'' articles) @ take 3 (bucket ''europe'' articles)
              @ take 3 (bucket ''global'' articles))
         = drop 3 (bucket ''europe'' articles) @ drop 3 (bucket ''global'' articles)
             @ drop 3 (bucket ''romania'' articles)"
proof -
  let ?pr = "take 3 (bucket ''romania'' articles)"
  let ?pe = "take 3 (bucket ''europe'' articles)"
  let ?pg = "take 3 (bucket ''global'' articles)"
  let ?pool = "sort_by_score (filter (\<lambda>a. id_a a \<notin> id_a ` set (?pr @ ?pe @ ?pg)) articles)"
  have se: "set (?pr @ ?pe @ ?pg) = set ?pe \<union> set (?pr @ ?pg)" by auto
  have sg: "set (?pr @ ?pe @ ?pg) = set ?pg \<union> set (?pr @ ?pe)" by auto
  have sr: "set (?pr @ ?pe @ ?pg) = set ?pr \<union> set (?pe @ ?pg)" by auto
  have eu: "filter (\<lambda>a. geo a = ''europe'') ?pool = drop 3 (bucket ''europe'' articles)"
    unfolding se
    by (rule overflow_of_bucket [OF ids]) (auto dest!: in_take_bucket)
  have gl: "filter (\<lambda>a. geo a = ''global'') ?pool = drop 3 (bucket ''global'' articles)"
    unfolding sg
    by (rule overflow_of_bucket [OF ids]) (auto dest!: in_take_bucket)
  have ro: "filter (\<lambda>a. geo a = ''romania'') ?pool = drop 3 (bucket ''romania'' articles)"
    unfolding sr
    by (rule overflow_of_bucket [OF ids]) (auto dest!: in_take_bucket)
  show ?thesis
    unfolding overflow_ordered_def Let_def eu gl ro ..
qed

lemma picked_lists_buckets:
  assumes ids: "distinct (map id_a articles)"
  shows "picked_lists articles =
     (let R = bucket ''romania'' articles;
          E = bucket ''europe'' articles;
          G = bucket ''global'' articles;
          extra = take (9 - (length (take 3 R) + length (take 3 E) + length (take 3 G)))
                    (drop 3 E @ drop 3 G @ drop 3 R)
      in (take 3 R @ filter (\<lambda>a. geo a = ''romania'') extra,
          take 3 E @ filter (\<lambda>a. geo a = ''europe'') extra,
          take 3 G @ filter (\<lambda>a. geo a = ''global'') extra))"
proof -
  let ?t = "length (take 3 (bucket ''romania'' articles)) + length (take 3 (bucket ''europe'' articles))
        + length (take 3 (bucket ''global'' articles))"
  have n: "nat (int 9 - int ?t) = 9 - ?t" by simp
  show ?thesis
  proof (cases "int 9 - int ?t > 0")
    case True
    then show ?thesis
      unfolding picked_lists_def Let_def SLOTS_ROMANIA_def SLOTS_EUROPE_def SLOTS_GLOBAL_def
        TOTAL_ARTICLES_def overflow_ordered_buckets [OF ids] n
      by (simp only: if_True)
  next
    case False
    then have z: "9 - ?t = 0" by simp
    show ?thesis
      unfolding picked_lists_def Let_def SLOTS_ROMANIA_def SLOTS_EUROPE_def SLOTS_GLOBAL_def
        TOTAL_ARTICLES_def
      using False by (simp only: if_False z take_0 filter.simps append_Nil2)
  qed
qed

lemma filter_geo_same:
  "set xs \<subseteq> set (bucket g articles) \<Longrightarrow> filter (\<lambda>a. geo a = g) xs = xs"
  by (auto simp: filter_id_conv set_bucket)

lemma filter_geo_other:
  "set xs \<subseteq> set (bucket g articles) \<Longrightarrow> g \<noteq> g' \<Longrightarrow> filter (\<lambda>a. geo a = g') xs = []"
  by (auto simp: filter_empty_conv set_bucket)

lemma take_drop_sub: "set (take k (drop n xs)) \<subseteq> set xs"
  using set_take_subset [of k "drop n xs"] set_drop_subset [of n xs] by blast

text \<open>A bucket is in descending order of score, and articles of equal score keep their order.\<close>

lemma bucket_sorted: "sorted_wrt (\<lambda>a b. score b \<le> score a) (bucket g articles)"
proof -
  have "sorted (map (\<lambda>x. - score x) (bucket g articles))"
    by (simp add: bucket_def sort_by_score_def)
  then show ?thesis
    by (simp add: sorted_map)
qed

lemma bucket_stable:
  "filter (\<lambda>a. score a = s) (bucket g articles) =
     filter (\<lambda>a. geo a = g \<and> score a = s) articles"
  using sort_key_stable [of "\<lambda>x. - score x" "- s" "filter (\<lambda>a. geo a = g) articles"]
  by (simp add: bucket_def sort_by_score_def)

text \<open>The articles of one geography in the overflow pool are the unused ones of its bucket.\<close>

lemma filter_pool:
  "filter (\<lambda>a. geo a = g) (sort_by_score (filter U articles)) = filter U (bucket g articles)"
  by (simp add: sort_by_score_def bucket_def filter_sort conj_commute)

lemma overflow_ordered_unused:
  "overflow_ordered articles picked =
     filter (\<lambda>a. id_a a \<notin> id_a ` set picked) (bucket ''europe'' articles)
     @ filter (\<lambda>a. id_a a \<notin> id_a ` set picked) (bucket ''global'' articles)
     @ filter (\<lambda>a. id_a a \<notin> id_a ` set picked) (bucket ''romania'' articles)"
  by (simp only: overflow_ordered_def Let_def filter_pool)

text \<open>What the first \<open>n\<close> of three groups of different geography hold of each group.\<close>

lemma filter_take_three:
  assumes A: "\<And>a. a \<in> set A \<Longrightarrow> geo a = gA"
    and B: "\<And>a. a \<in> set B \<Longrightarrow> geo a = gB"
    and C: "\<And>a. a \<in> set C \<Longrightarrow> geo a = gC"
    and ne: "gA \<noteq> gB" "gA \<noteq> gC" "gB \<noteq> gC"
  shows "filter (\<lambda>a. geo a = gA) (take n (A @ B @ C)) = take n A"
    and "filter (\<lambda>a. geo a = gB) (take n (A @ B @ C)) = take (n - length A) B"
    and "filter (\<lambda>a. geo a = gC) (take n (A @ B @ C)) = take (n - length A - length B) C"
proof -
  have t: "take n (A @ B @ C) =
      take n A @ take (n - length A) B @ take (n - length A - length B) C"
    by simp
  have a: "\<And>k a. a \<in> set (take k A) \<Longrightarrow> geo a = gA"
    using A by (auto dest: in_set_takeD)
  have b: "\<And>k a. a \<in> set (take k B) \<Longrightarrow> geo a = gB"
    using B by (auto dest: in_set_takeD)
  have c: "\<And>k a. a \<in> set (take k C) \<Longrightarrow> geo a = gC"
    using C by (auto dest: in_set_takeD)
  show "filter (\<lambda>a. geo a = gA) (take n (A @ B @ C)) = take n A"
    unfolding t using a b c ne by (auto simp: filter_id_conv filter_empty_conv)
  show "filter (\<lambda>a. geo a = gB) (take n (A @ B @ C)) = take (n - length A) B"
    unfolding t using a b c ne by (auto simp: filter_id_conv filter_empty_conv)
  show "filter (\<lambda>a. geo a = gC) (take n (A @ B @ C)) = take (n - length A - length B) C"
    unfolding t using a b c ne by (auto simp: filter_id_conv filter_empty_conv)
qed

lemma geo_filter_bucket: "a \<in> set (filter U (bucket g articles)) \<Longrightarrow> geo a = g"
  by (simp add: set_bucket)

text \<open>The picked lists, for every input: each bucket's top three and its share of the free slots.\<close>

lemma picked_lists_unused:
  fixes articles :: "article list"
  defines "R \<equiv> bucket ''romania'' articles"
    and "E \<equiv> bucket ''europe'' articles"
    and "G \<equiv> bucket ''global'' articles"
  defines "U \<equiv> (\<lambda>a. id_a a \<notin> id_a ` set (take 3 R @ take 3 E @ take 3 G))"
    and "free \<equiv> 9 - (length (take 3 R) + length (take 3 E) + length (take 3 G))"
  shows "picked_lists articles =
     (take 3 R @ take (free - length (filter U E) - length (filter U G)) (filter U R),
      take 3 E @ take free (filter U E),
      take 3 G @ take (free - length (filter U E)) (filter U G))"
proof -
  let ?extra = "take free (filter U E @ filter U G @ filter U R)"
  have x1: "filter (\<lambda>a. geo a = ''europe'') ?extra = take free (filter U E)"
    unfolding E_def G_def R_def
    by (rule filter_take_three(1) [where gB = "''global''" and gC = "''romania''"])
      (simp_all add: set_bucket)
  have x2: "filter (\<lambda>a. geo a = ''global'') ?extra = take (free - length (filter U E)) (filter U G)"
    unfolding E_def G_def R_def
    by (rule filter_take_three(2) [where gA = "''europe''" and gC = "''romania''"])
      (simp_all add: set_bucket)
  have x3: "filter (\<lambda>a. geo a = ''romania'') ?extra =
      take (free - length (filter U E) - length (filter U G)) (filter U R)"
    unfolding E_def G_def R_def
    by (rule filter_take_three(3) [where gA = "''europe''" and gB = "''global''"])
      (simp_all add: set_bucket)
  have ov: "overflow_ordered articles (take 3 R @ take 3 E @ take 3 G)
      = filter U E @ filter U G @ filter U R"
    unfolding U_def E_def G_def R_def by (rule overflow_ordered_unused)
  let ?t = "length (take 3 R) + length (take 3 E) + length (take 3 G)"
  have n: "nat (int 9 - int ?t) = free"
    by (simp add: free_def)
  show ?thesis
  proof (cases "int 9 - int ?t > 0")
    case True
    have "picked_lists articles =
        (take 3 R @ filter (\<lambda>a. geo a = ''romania'') ?extra,
         take 3 E @ filter (\<lambda>a. geo a = ''europe'') ?extra,
         take 3 G @ filter (\<lambda>a. geo a = ''global'') ?extra)"
      using True
      unfolding picked_lists_def Let_def SLOTS_ROMANIA_def SLOTS_EUROPE_def SLOTS_GLOBAL_def
        TOTAL_ARTICLES_def R_def [symmetric] E_def [symmetric] G_def [symmetric] ov n
      by (simp only: if_True)
    then show ?thesis
      by (simp only: x1 x2 x3)
  next
    case False
    then have z: "free = 0"
      by (simp add: free_def)
    have "picked_lists articles = (take 3 R, take 3 E, take 3 G)"
      using False
      unfolding picked_lists_def Let_def SLOTS_ROMANIA_def SLOTS_EUROPE_def SLOTS_GLOBAL_def
        TOTAL_ARTICLES_def R_def [symmetric] E_def [symmetric] G_def [symmetric]
      by (simp only: if_False)
    then show ?thesis
      by (simp add: z)
  qed
qed

text \<open>With pairwise distinct ids the unused articles of a bucket are those after its top three.\<close>

lemma picked_lists_distinct:
  fixes articles :: "article list"
  defines "R \<equiv> bucket ''romania'' articles"
    and "E \<equiv> bucket ''europe'' articles"
    and "G \<equiv> bucket ''global'' articles"
  defines "free \<equiv> 9 - (min 3 (length R) + min 3 (length E) + min 3 (length G))"
  assumes ids: "distinct (map id_a articles)"
  shows "picked_lists articles =
     (take (3 + (free - (length E - 3) - (length G - 3))) R,
      take (3 + free) E,
      take (3 + (free - (length E - 3))) G)"
proof -
  let ?extra = "take free (drop 3 E @ drop 3 G @ drop 3 R)"
  have f: "free = 9 - (length (take 3 R) + length (take 3 E) + length (take 3 G))"
    by (simp add: free_def min.commute)
  have x1: "filter (\<lambda>a. geo a = ''europe'') ?extra = take free (drop 3 E)"
    unfolding E_def G_def R_def
    by (rule filter_take_three(1) [where gB = "''global''" and gC = "''romania''"])
      (auto dest: in_drop_bucket)
  have "filter (\<lambda>a. geo a = ''global'') ?extra = take (free - length (drop 3 E)) (drop 3 G)"
    unfolding E_def G_def R_def
    by (rule filter_take_three(2) [where gA = "''europe''" and gC = "''romania''"])
      (auto dest: in_drop_bucket)
  then have x2: "filter (\<lambda>a. geo a = ''global'') ?extra = take (free - (length E - 3)) (drop 3 G)"
    by simp
  have "filter (\<lambda>a. geo a = ''romania'') ?extra =
      take (free - length (drop 3 E) - length (drop 3 G)) (drop 3 R)"
    unfolding E_def G_def R_def
    by (rule filter_take_three(3) [where gA = "''europe''" and gB = "''global''"])
      (auto dest: in_drop_bucket)
  then have x3: "filter (\<lambda>a. geo a = ''romania'') ?extra =
      take (free - (length E - 3) - (length G - 3)) (drop 3 R)"
    by simp
  have "picked_lists articles =
      (take 3 R @ filter (\<lambda>a. geo a = ''romania'') ?extra,
       take 3 E @ filter (\<lambda>a. geo a = ''europe'') ?extra,
       take 3 G @ filter (\<lambda>a. geo a = ''global'') ?extra)"
    unfolding picked_lists_buckets [OF ids] Let_def R_def [symmetric] E_def [symmetric]
      G_def [symmetric] f [symmetric] ..
  then show ?thesis
    by (simp only: x1 x2 x3 take_add [symmetric])
qed

text \<open>The selection consists of the picked articles: together they are at most 9.\<close>

lemma nth_in_take_drop: "i < length xs \<Longrightarrow> xs ! i \<in> set (take 1 (drop i xs))"
  by (simp add: Cons_nth_drop_Suc [symmetric])

lemma set_interleave: "set (interleave ro eu gl) = set ro \<union> set eu \<union> set gl"
proof (intro equalityI subsetI)
  fix x assume "x \<in> set (interleave ro eu gl)"
  then obtain i where "x \<in> set (take 1 (drop i ro)) \<or> x \<in> set (take 1 (drop i eu))
      \<or> x \<in> set (take 1 (drop i gl))"
    by (auto simp: interleave_concat)
  then show "x \<in> set ro \<union> set eu \<union> set gl"
    using take_drop_sub [of 1 i ro] take_drop_sub [of 1 i eu] take_drop_sub [of 1 i gl]
    by blast
next
  let ?m = "max (length ro) (max (length eu) (length gl))"
  let ?f = "\<lambda>i. take 1 (drop i ro) @ take 1 (drop i eu) @ take 1 (drop i gl)"
  fix x assume "x \<in> set ro \<union> set eu \<union> set gl"
  then obtain i where "i < ?m" "x \<in> set (?f i)"
  proof (elim UnE)
    assume "x \<in> set ro"
    then obtain i where "i < length ro" "ro ! i = x"
      by (auto simp: in_set_conv_nth)
    then have "i < ?m" "x \<in> set (?f i)"
      using nth_in_take_drop [of i ro] by auto
    then show ?thesis by (rule that)
  next
    assume "x \<in> set eu"
    then obtain i where "i < length eu" "eu ! i = x"
      by (auto simp: in_set_conv_nth)
    then have "i < ?m" "x \<in> set (?f i)"
      using nth_in_take_drop [of i eu] by auto
    then show ?thesis by (rule that)
  next
    assume "x \<in> set gl"
    then obtain i where "i < length gl" "gl ! i = x"
      by (auto simp: in_set_conv_nth)
    then have "i < ?m" "x \<in> set (?f i)"
      using nth_in_take_drop [of i gl] by auto
    then show ?thesis by (rule that)
  qed
  then have "x \<in> set (concat (map ?f [0..<?m]))"
    by (auto simp del: upt_Suc)
  then show "x \<in> set (interleave ro eu gl)"
    by (simp only: interleave_concat)
qed

lemma share_arith:
  fixes f a b c :: nat
  shows "min f a + (min (f - a) b + min (f - a - b) c) \<le> f"
  by (cases "f \<le> a"; cases "f - a \<le> b"; cases "f - a - b \<le> c") (simp_all add: min_def)

lemma total_le: "t \<le> 9 \<Longrightarrow> x \<le> 9 - t \<Longrightarrow> t + x \<le> (9::nat)"
  by simp

lemma selection_is_picked:
  "(case picked_lists articles of
      (ro, eu, gl) \<Rightarrow> set (balanced_selection articles) = set ro \<union> set eu \<union> set gl)"
proof -
  let ?R = "bucket ''romania'' articles"
  let ?E = "bucket ''europe'' articles"
  let ?G = "bucket ''global'' articles"
  let ?U = "\<lambda>a. id_a a \<notin> id_a ` set (take 3 ?R @ take 3 ?E @ take 3 ?G)"
  let ?t = "length (take 3 ?R) + length (take 3 ?E) + length (take 3 ?G)"
  let ?free = "9 - ?t"
  obtain ro eu gl where p: "picked_lists articles = (ro, eu, gl)"
    by (cases "picked_lists articles") auto
  have ro: "ro = take 3 ?R @ take (?free - length (filter ?U ?E) - length (filter ?U ?G)) (filter ?U ?R)"
    and eu: "eu = take 3 ?E @ take ?free (filter ?U ?E)"
    and gl: "gl = take 3 ?G @ take (?free - length (filter ?U ?E)) (filter ?U ?G)"
    using p unfolding picked_lists_unused by simp_all
  let ?x = "min ?free (length (filter ?U ?E))
      + (min (?free - length (filter ?U ?E)) (length (filter ?U ?G))
      + min (?free - length (filter ?U ?E) - length (filter ?U ?G)) (length (filter ?U ?R)))"
  have t: "?t \<le> 9"
    by simp
  have x: "?x \<le> 9 - ?t"
    by (rule share_arith)
  have l: "length ro + length eu + length gl = ?t + ?x"
    unfolding ro eu gl by (simp only: length_append length_take min.commute)
  have "?t + ?x \<le> 9"
    using t x by (rule total_le)
  then have "length ro + length eu + length gl \<le> 9"
    by (simp only: l)
  then have "balanced_selection articles = interleave ro eu gl"
    by (simp add: balanced_selection_def p TOTAL_ARTICLES_def length_interleave)
  then show ?thesis
    by (simp add: p set_interleave)
qed

text \<open>
  C2 (as amended).  Each bucket is in descending order of score, articles of equal score
  in input order.  For every input the free slots, 9 less the top three of each bucket, go
  to the articles whose id is not among those top picks, in the order: the unused articles
  of the \<open>europe\<close> bucket, then those of the \<open>global\<close> bucket, then those of the \<open>romania\<close>
  bucket, each group in the order of its bucket; the selection consists of the articles
  picked that way.  When the ids are pairwise distinct, the
  unused articles of a bucket are those after its top three, so that each picked list is
  an initial part of its bucket; then with exactly one \<open>romania\<close> article, at least five
  \<open>europe\<close> articles and at least three \<open>global\<close> ones both free slots go to the \<open>europe\<close>
  bucket, and with exactly four \<open>europe\<close> articles and at least four \<open>global\<close> ones one
  free slot goes to the fourth \<open>europe\<close> article and the other to the fourth \<open>global\<close>
  article.
\<close>

theorem overflow_priority:
  "sorted_wrt (\<lambda>a b. score b \<le> score a) (bucket g articles)
   \<and> filter (\<lambda>a. score a = s) (bucket g articles) =
       filter (\<lambda>a. geo a = g \<and> score a = s) articles
   \<and> (let R = bucket ''romania'' articles;
           E = bucket ''europe'' articles;
           G = bucket ''global'' articles;
           picked = take 3 R @ take 3 E @ take 3 G;
           unused = filter (\<lambda>a. id_a a \<notin> id_a ` set picked);
           free = 9 - length picked
       in overflow_ordered articles picked = unused E @ unused G @ unused R
          \<and> picked_lists articles =
              (take 3 R @ take (free - length (unused E) - length (unused G)) (unused R),
               take 3 E @ take free (unused E),
               take 3 G @ take (free - length (unused E)) (unused G)))
   \<and> (case picked_lists articles of
         (ro, eu, gl) \<Rightarrow> set (balanced_selection articles) = set ro \<union> set eu \<union> set gl)
   \<and> (distinct (map id_a articles) \<longrightarrow>
        (let R = bucket ''romania'' articles;
             E = bucket ''europe'' articles;
             G = bucket ''global'' articles;
             free = 9 - (min 3 (length R) + min 3 (length E) + min 3 (length G))
         in picked_lists articles =
              (take (3 + (free - (length E - 3) - (length G - 3))) R,
               take (3 + free) E,
               take (3 + (free - (length E - 3))) G)))
   \<and> (distinct (map id_a articles) \<and> length (bucket ''romania'' articles) = 1
        \<and> 5 \<le> length (bucket ''europe'' articles) \<and> 3 \<le> length (bucket ''global'' articles)
      \<longrightarrow> picked_lists articles =
            (bucket ''romania'' articles, take 5 (bucket ''europe'' articles),
             take 3 (bucket ''global'' articles)))
   \<and> (distinct (map id_a articles) \<and> length (bucket ''romania'' articles) = 1
        \<and> length (bucket ''europe'' articles) = 4 \<and> 4 \<le> length (bucket ''global'' articles)
      \<longrightarrow> picked_lists articles =
            (bucket ''romania'' articles, bucket ''europe'' articles,
             take 4 (bucket ''global'' articles)))"
proof (intro conjI impI)
  show "sorted_wrt (\<lambda>a b. score b \<le> score a) (bucket g articles)"
    by (rule bucket_sorted)
  show "filter (\<lambda>a. score a = s) (bucket g articles) =
       filter (\<lambda>a. geo a = g \<and> score a = s) articles"
    by (rule bucket_stable)
  show "let R = bucket ''romania'' articles;
           E = bucket ''europe'' articles;
           G = bucket ''global'' articles;
           picked = take 3 R @ take 3 E @ take 3 G;
           unused = filter (\<lambda>a. id_a a \<notin> id_a ` set picked);
           free = 9 - length picked
       in overflow_ordered articles picked = unused E @ unused G @ unused R
          \<and> picked_lists articles =
              (take 3 R @ take (free - length (unused E) - length (unused G)) (unused R),
               take 3 E @ take free (unused E),
               take 3 G @ take (free - length (unused E)) (unused G))"
    unfolding Let_def length_append add.assoc [symmetric]
    using overflow_ordered_unused [of articles] picked_lists_unused [of articles]
    by blast
  show "case picked_lists articles of
         (ro, eu, gl) \<Rightarrow> set (balanced_selection articles) = set ro \<union> set eu \<union> set gl"
    by (rule selection_is_picked)
next
  assume "distinct (map id_a articles)"
  then show "let R = bucket ''romania'' articles;
             E = bucket ''europe'' articles;
             G = bucket ''global'' articles;
             free = 9 - (min 3 (length R) + min 3 (length E) + min 3 (length G))
         in picked_lists articles =
              (take (3 + (free - (length E - 3) - (length G - 3))) R,
               take (3 + free) E,
               take (3 + (free - (length E - 3))) G)"
    unfolding Let_def by (rule picked_lists_distinct)
next
  assume h: "distinct (map id_a articles) \<and> length (bucket ''romania'' articles) = 1
        \<and> 5 \<le> length (bucket ''europe'' articles) \<and> 3 \<le> length (bucket ''global'' articles)"
  then show "picked_lists articles =
            (bucket ''romania'' articles, take 5 (bucket ''europe'' articles),
             take 3 (bucket ''global'' articles))"
    using picked_lists_distinct [of articles] by simp
next
  assume h: "distinct (map id_a articles) \<and> length (bucket ''romania'' articles) = 1
        \<and> length (bucket ''europe'' articles) = 4 \<and> 4 \<le> length (bucket ''global'' articles)"
  then show "picked_lists articles =
            (bucket ''romania'' articles, bucket ''europe'' articles,
             take 4 (bucket ''global'' articles))"
    using picked_lists_distinct [of articles] by simp
qed

lemma one_five_four_facts:
  "distinct (map id_a one_five_four)"
  "length (bucket ''romania'' one_five_four) = 1"
  "length (bucket ''europe'' one_five_four) = 5"
  "length (bucket ''global'' one_five_four) = 4"
  "bucket ''romania'' one_five_four = [scored ''r1'' ''romania'' 5]"
  "take 5 (bucket ''europe'' one_five_four) =
     [scored ''e1'' ''europe'' 9, scored ''e2'' ''europe'' 8, scored ''e3'' ''europe'' 7,
      scored ''e4'' ''europe'' 6, scored ''e5'' ''europe'' 5]"
  "take 3 (bucket ''global'' one_five_four) =
     [scored ''g1'' ''global'' 4, scored ''g2'' ''global'' 3, scored ''g3'' ''global'' 2]"
  by code_simp+

lemma six_europe_facts:
  "distinct (map id_a six_europe)"
  "bucket ''romania'' six_europe = []"
  "bucket ''europe'' six_europe =
     [scored ''e1'' ''europe'' 9, scored ''e2'' ''europe'' 8, scored ''e3'' ''europe'' 7,
      scored ''e4'' ''europe'' 6, scored ''e5'' ''europe'' 5, scored ''e6'' ''europe'' 1]"
  "bucket ''global'' six_europe =
     [scored ''g1'' ''global'' 4, scored ''g2'' ''global'' 3, scored ''g3'' ''global'' 2]"
  by code_simp+

text \<open>
  One \<open>romania\<close>, five \<open>europe\<close> and four \<open>global\<close> articles: the two free slots go to
  the fourth and fifth \<open>europe\<close> articles, and the fourth \<open>global\<close> article is left out.
  Six \<open>europe\<close> and three \<open>global\<close> articles: all three free slots go to \<open>europe\<close>
  articles.
\<close>

theorem overflow_priority_witness:
  "distinct (map id_a one_five_four) \<and>
   length (bucket ''romania'' one_five_four) = 1 \<and>
   length (bucket ''europe'' one_five_four) = 5 \<and>
   length (bucket ''global'' one_five_four) = 4 \<and>
   picked_lists one_five_four =
     ([scored ''r1'' ''romania'' 5],
      [scored ''e1'' ''europe'' 9, scored ''e2'' ''europe'' 8, scored ''e3'' ''europe'' 7,
       scored ''e4'' ''europe'' 6, scored ''e5'' ''europe'' 5],
      [scored ''g1'' ''global'' 4, scored ''g2'' ''global'' 3, scored ''g3'' ''global'' 2]) \<and>
   scored ''e5'' ''europe'' 5 \<in> set (balanced_selection one_five_four) \<and>
   scored ''g4'' ''global'' 1 \<notin> set (balanced_selection one_five_four) \<and>
   distinct (map id_a six_europe) \<and>
   picked_lists six_europe =
     ([],
      [scored ''e1'' ''europe'' 9, scored ''e2'' ''europe'' 8, scored ''e3'' ''europe'' 7,
       scored ''e4'' ''europe'' 6, scored ''e5'' ''europe'' 5, scored ''e6'' ''europe'' 1],
      [scored ''g1'' ''global'' 4, scored ''g2'' ''global'' 3, scored ''g3'' ''global'' 2])"
proof -
  note a = overflow_priority [of "''europe''" one_five_four 0]
  note b = overflow_priority [of "''europe''" six_europe 0]
  note a_sel = a [THEN conjunct2, THEN conjunct2, THEN conjunct2, THEN conjunct1]
  note b_ids = b [THEN conjunct2, THEN conjunct2, THEN conjunct2, THEN conjunct2,
      THEN conjunct1]
  have "picked_lists one_five_four =
      (bucket ''romania'' one_five_four, take 5 (bucket ''europe'' one_five_four),
       take 3 (bucket ''global'' one_five_four))"
    using a one_five_four_facts(1-4) by simp
  then have p: "picked_lists one_five_four =
     ([scored ''r1'' ''romania'' 5],
      [scored ''e1'' ''europe'' 9, scored ''e2'' ''europe'' 8, scored ''e3'' ''europe'' 7,
       scored ''e4'' ''europe'' 6, scored ''e5'' ''europe'' 5],
      [scored ''g1'' ''global'' 4, scored ''g2'' ''global'' 3, scored ''g3'' ''global'' 2])"
    by (simp only: one_five_four_facts(5-7))
  have m: "scored ''e5'' ''europe'' 5 \<in> set (balanced_selection one_five_four)"
      "scored ''g4'' ''global'' 1 \<notin> set (balanced_selection one_five_four)"
    using a_sel by (simp_all add: p scored_def)
  have q: "picked_lists six_europe =
     ([],
      [scored ''e1'' ''europe'' 9, scored ''e2'' ''europe'' 8, scored ''e3'' ''europe'' 7,
       scored ''e4'' ''europe'' 6, scored ''e5'' ''europe'' 5, scored ''e6'' ''europe'' 1],
      [scored ''g1'' ''global'' 4, scored ''g2'' ''global'' 3, scored ''g3'' ''global'' 2])"
    using b_ids six_europe_facts(1) by (simp add: six_europe_facts(2-4) Let_def)
  show ?thesis
    using p q m one_five_four_facts(1-4) six_europe_facts(1) by blast
qed

text \<open>
  One \<open>romania\<close> article and four each of \<open>europe\<close> and \<open>global\<close>: the claim as first
  stated has both free slots filled from the \<open>europe\<close> bucket, but the second goes to the
  fourth \<open>global\<close> article, which is part of the selection.  One \<open>romania\<close>, five
  \<open>europe\<close> and four \<open>global\<close> articles, the fourth \<open>europe\<close> article carrying the id
  of the first: it counts as used, and again the second free slot goes to the fourth
  \<open>global\<close> article.
\<close>

theorem overflow_counterexample:
  "length (bucket ''romania'' one_four_four) = 1 \<and>
   4 \<le> length (bucket ''europe'' one_four_four) \<and>
   4 \<le> length (bucket ''global'' one_four_four) \<and>
   distinct (map id_a one_four_four) \<and>
   picked_lists one_four_four =
     ([scored ''r1'' ''romania'' 5],
      [scored ''e1'' ''europe'' 9, scored ''e2'' ''europe'' 8, scored ''e3'' ''europe'' 7,
       scored ''e4'' ''europe'' 6],
      [scored ''g1'' ''global'' 4, scored ''g2'' ''global'' 3, scored ''g3'' ''global'' 2,
       scored ''g4'' ''global'' 1]) \<and>
   scored ''g4'' ''global'' 1 \<in> set (balanced_selection one_four_four) \<and>
   length (bucket ''romania'' repeated_id) = 1 \<and>
   length (bucket ''europe'' repeated_id) = 5 \<and>
   length (bucket ''global'' repeated_id) = 4 \<and>
   picked_lists repeated_id =
     ([scored ''r1'' ''romania'' 5],
      [scored ''e1'' ''europe'' 9, scored ''e2'' ''europe'' 8, scored ''e3'' ''europe'' 7,
       scored ''e5'' ''europe'' 5],
      [scored ''g1'' ''global'' 4, scored ''g2'' ''global'' 3, scored ''g3'' ''global'' 2,
       scored ''g4'' ''global'' 1]) \<and>
   scored ''g4'' ''global'' 1 \<in> set (balanced_selection repeated_id)"
  by code_simp

lemma pick_arith:
  fixes r e g :: nat
  shows "min 3 r + min 3 e + min 3 g
           + min (9 - (min 3 r + min 3 e + min 3 g)) ((e - 3) + ((g - 3) + (r - 3)))
         = min 9 (r + e + g)"
  by (cases "r \<le> 3"; cases "e \<le> 3"; cases "g \<le> 3") (auto simp: min_def)

lemma geo_partition:
  "\<forall>a \<in> set xs. geo a = ''romania'' \<or> geo a = ''europe'' \<or> geo a = ''global'' \<Longrightarrow>
   length (filter (\<lambda>a. geo a = ''romania'') xs) + length (filter (\<lambda>a. geo a = ''europe'') xs)
     + length (filter (\<lambda>a. geo a = ''global'') xs) = length xs"
  by (induction xs) auto

lemma length_picked_lists:
  assumes ids: "distinct (map id_a articles)"
    and geos: "\<forall>a \<in> set articles. geo a = ''romania'' \<or> geo a = ''europe'' \<or> geo a = ''global''"
  shows "(case picked_lists articles of (ro, eu, gl) \<Rightarrow> length ro + length eu + length gl)
     = min 9 (length articles)"
proof -
  let ?R = "bucket ''romania'' articles"
  let ?E = "bucket ''europe'' articles"
  let ?G = "bucket ''global'' articles"
  let ?t = "length (take 3 ?R) + length (take 3 ?E) + length (take 3 ?G)"
  let ?extra = "take (9 - ?t) (drop 3 ?E @ drop 3 ?G @ drop 3 ?R)"
  have "\<forall>a \<in> set ?extra. geo a = ''romania'' \<or> geo a = ''europe'' \<or> geo a = ''global''"
  proof
    fix a assume "a \<in> set ?extra"
    then have "a \<in> set (drop 3 ?E @ drop 3 ?G @ drop 3 ?R)"
      by (rule in_set_takeD)
    then show "geo a = ''romania'' \<or> geo a = ''europe'' \<or> geo a = ''global''"
      by (auto dest: in_drop_bucket)
  qed
  then have pe: "length (filter (\<lambda>a. geo a = ''romania'') ?extra)
      + length (filter (\<lambda>a. geo a = ''europe'') ?extra)
      + length (filter (\<lambda>a. geo a = ''global'') ?extra) = length ?extra"
    by (rule geo_partition)
  have n: "length ?R + length ?E + length ?G = length articles"
    using geo_partition [OF geos] by (simp only: length_bucket)
  have le: "length ?extra = min (9 - (min 3 (length ?R) + min 3 (length ?E) + min 3 (length ?G)))
      ((length ?E - 3) + ((length ?G - 3) + (length ?R - 3)))"
    by (simp only: length_take length_append length_drop min.commute)
  have "(case picked_lists articles of (ro, eu, gl) \<Rightarrow> length ro + length eu + length gl)
      = length (take 3 ?R) + length (filter (\<lambda>a. geo a = ''romania'') ?extra)
        + (length (take 3 ?E) + length (filter (\<lambda>a. geo a = ''europe'') ?extra))
        + (length (take 3 ?G) + length (filter (\<lambda>a. geo a = ''global'') ?extra))"
    unfolding picked_lists_buckets [OF ids] Let_def
    by (simp only: prod.case length_append)
  also have "\<dots> = ?t + length ?extra"
    using pe by linarith
  also have "\<dots> = min 3 (length ?R) + min 3 (length ?E) + min 3 (length ?G)
      + min (9 - (min 3 (length ?R) + min 3 (length ?E) + min 3 (length ?G)))
          ((length ?E - 3) + ((length ?G - 3) + (length ?R - 3)))"
    unfolding le by (simp only: length_take min.commute)
  also have "\<dots> = min 9 (length ?R + length ?E + length ?G)"
    by (rule pick_arith)
  finally show ?thesis
    by (simp only: n)
qed

text \<open>
  C1.  \<open>balanced_selection\<close> never returns more than 9 articles; when the ids are
  pairwise distinct and every article's \<open>geo\<close> is one of the three geographies, it
  returns exactly \<open>min 9 n\<close> of \<open>n\<close> articles.
\<close>

theorem balanced_selection_length:
  "length (balanced_selection articles) \<le> 9 \<and>
   (distinct (map id_a articles) \<and>
    (\<forall>a \<in> set articles. geo a = ''romania'' \<or> geo a = ''europe'' \<or> geo a = ''global'')
    \<longrightarrow> length (balanced_selection articles) = min 9 (length articles))"
proof (intro conjI impI)
  show "length (balanced_selection articles) \<le> 9"
    by (simp add: balanced_selection_def TOTAL_ARTICLES_def split: prod.splits)
next
  assume h: "distinct (map id_a articles) \<and>
    (\<forall>a \<in> set articles. geo a = ''romania'' \<or> geo a = ''europe'' \<or> geo a = ''global'')"
  obtain ro eu gl where p: "picked_lists articles = (ro, eu, gl)"
    by (cases "picked_lists articles") auto
  have "length ro + length eu + length gl = min 9 (length articles)"
    using length_picked_lists [of articles] h p by simp
  then show "length (balanced_selection articles) = min 9 (length articles)"
    by (simp add: balanced_selection_def p TOTAL_ARTICLES_def length_interleave)
qed

lemma scenario_facts:
  "distinct (map id_a scenario)"
  "list_all (\<lambda>a. geo a = ''romania'' \<or> geo a = ''europe'' \<or> geo a = ''global'') scenario"
  "length scenario = 25"
  "distinct (map id_a (take 4 one_four_four))"
  "list_all (\<lambda>a. geo a = ''romania'' \<or> geo a = ''europe'' \<or> geo a = ''global'')
     (take 4 one_four_four)"
  "length (take 4 one_four_four) = 4"
  by code_simp+

text \<open>The 25 articles of the scenario give 9; four articles give all four.\<close>

theorem balanced_selection_length_witness:
  "length (balanced_selection scenario) = 9 \<and>
   length (balanced_selection (take 4 one_four_four)) = 4"
proof -
  have "length (balanced_selection scenario) = min 9 (length scenario)"
    using balanced_selection_length [of scenario] scenario_facts(1,2)
    by (simp add: list_all_iff)
  moreover have "length (balanced_selection (take 4 one_four_four))
      = min 9 (length (take 4 one_four_four))"
    using balanced_selection_length [of "take 4 one_four_four"] scenario_facts(4,5)
    by (simp add: list_all_iff)
  ultimately show ?thesis
    by (simp only: scenario_facts(3,6)) simp
qed

lemma scenario_selection:
  "balanced_selection scenario =
   [scored ''r10'' ''romania'' 10, scored ''e09'' ''europe'' 9, scored ''g20'' ''global'' 20,
    scored ''r08'' ''romania'' 8, scored ''e07'' ''europe'' 7, scored ''g19'' ''global'' 19,
    scored ''r05'' ''romania'' 5, scored ''g18'' ''global'' 18, scored ''g17'' ''global'' 17]"
  by code_simp

text \<open>
  C3.  The result of \<open>balanced_selection\<close> is the first 9 of the round robin over the
  three picked lists: for \<open>i = 0, 1, 2, \<dots>\<close> the \<open>i\<close>-th \<open>romania\<close> pick, the \<open>i\<close>-th
  \<open>europe\<close> pick, the \<open>i\<close>-th \<open>global\<close> pick, each left out once its list is exhausted.
  With three picks per bucket the order is r1, e1, g1, r2, e2, g2, r3, e3, g3.  On the
  scenario the result is romania 10, europe 9, global 20, romania 8, europe 7, global 19,
  romania 5, global 18, global 17.
\<close>

theorem balanced_selection_round_robin:
  "(case picked_lists articles of
      (ro, eu, gl) \<Rightarrow>
        balanced_selection articles =
          take 9 (concat (map (\<lambda>i. take 1 (drop i ro) @ take 1 (drop i eu) @ take 1 (drop i gl))
                            [0..<max (length ro) (max (length eu) (length gl))])))
   \<and> (picked_lists articles = ([r1, r2, r3], [e1, e2, e3], [g1, g2, g3])
        \<longrightarrow> balanced_selection articles = [r1, e1, g1, r2, e2, g2, r3, e3, g3])
   \<and> balanced_selection scenario =
       [scored ''r10'' ''romania'' 10, scored ''e09'' ''europe'' 9, scored ''g20'' ''global'' 20,
        scored ''r08'' ''romania'' 8, scored ''e07'' ''europe'' 7, scored ''g19'' ''global'' 19,
        scored ''r05'' ''romania'' 5, scored ''g18'' ''global'' 18, scored ''g17'' ''global'' 17]"
proof (intro conjI impI)
  show "case picked_lists articles of
      (ro, eu, gl) \<Rightarrow>
        balanced_selection articles =
          take 9 (concat (map (\<lambda>i. take 1 (drop i ro) @ take 1 (drop i eu) @ take 1 (drop i gl))
                            [0..<max (length ro) (max (length eu) (length gl))]))"
    by (simp add: balanced_selection_def TOTAL_ARTICLES_def interleave_concat
          split: prod.splits)
next
  assume "picked_lists articles = ([r1, r2, r3], [e1, e2, e3], [g1, g2, g3])"
  then show "balanced_selection articles = [r1, e1, g1, r2, e2, g2, r3, e3, g3]"
    by (simp add: balanced_selection_def TOTAL_ARTICLES_def interleave_333)
next
  show "balanced_selection scenario =
       [scored ''r10'' ''romania'' 10, scored ''e09'' ''europe'' 9, scored ''g20'' ''global'' 20,
        scored ''r08'' ''romania'' 8, scored ''e07'' ''europe'' 7, scored ''g19'' ''global'' 19,
        scored ''r05'' ''romania'' 5, scored ''g18'' ''global'' 18, scored ''g17'' ''global'' 17]"
    by (rule scenario_selection)
qed

lemma three_each_picked:
  "picked_lists three_each =
     ([scored ''r1'' ''romania'' 5, scored ''r2'' ''romania'' 4, scored ''r3'' ''romania'' 3],
      [scored ''e1'' ''europe'' 9, scored ''e2'' ''europe'' 8, scored ''e3'' ''europe'' 7],
      [scored ''g1'' ''global'' 4, scored ''g2'' ''global'' 3, scored ''g3'' ''global'' 2])"
  by code_simp

text \<open>Three articles of each geography come out interleaved.\<close>

theorem balanced_selection_round_robin_witness:
  "balanced_selection three_each =
     [scored ''r1'' ''romania'' 5, scored ''e1'' ''europe'' 9, scored ''g1'' ''global'' 4,
      scored ''r2'' ''romania'' 4, scored ''e2'' ''europe'' 8, scored ''g2'' ''global'' 3,
      scored ''r3'' ''romania'' 3, scored ''e3'' ''europe'' 7, scored ''g3'' ''global'' 2]"
  using balanced_selection_round_robin [of three_each
      "scored ''r1'' ''romania'' 5" "scored ''r2'' ''romania'' 4" "scored ''r3'' ''romania'' 3"
      "scored ''e1'' ''europe'' 9" "scored ''e2'' ''europe'' 8" "scored ''e3'' ''europe'' 7"
      "scored ''g1'' ''global'' 4" "scored ''g2'' ''global'' 3" "scored ''g3'' ''global'' 2"]
    three_each_picked
  by blast


section \<open>Properties of entry normalisation\<close>

lemma rsplit_head_space:
  assumes "CHR '' '' \<in> set s"
  shows "\<exists>k<length s. rsplit_head s = take k s \<and> s ! k = CHR '' ''
           \<and> CHR '' '' \<notin> set (drop (Suc k) s)"
proof -
  let ?P = "\<lambda>c. c \<noteq> CHR '' ''"
  define tw where "tw = takeWhile ?P (rev s)"
  define dw where "dw = dropWhile ?P (rev s)"
  have "dw \<noteq> []"
    using assms by (simp add: dw_def dropWhile_eq_Nil_conv)
  then obtain rest where dw: "dw = CHR '' '' # rest"
    using hd_dropWhile [of ?P "rev s"] by (cases dw) (auto simp: dw_def)
  have "rev s = tw @ dw"
    by (simp add: tw_def dw_def)
  then have "rev (rev s) = rev (tw @ CHR '' '' # rest)"
    using dw by simp
  then have s: "s = rev rest @ CHR '' '' # rev tw"
    by simp
  have nosp: "CHR '' '' \<notin> set tw"
    by (auto simp: tw_def dest: set_takeWhileD)
  have h: "rsplit_head s = rev rest"
    using assms dw by (simp add: rsplit_head_def dw_def [symmetric])
  have "length rest < length s" "take (length rest) s = rev rest"
    "s ! length rest = CHR '' ''" "drop (Suc (length rest)) s = rev tw"
    by (simp_all add: s nth_append)
  then show ?thesis
    using h nosp by (intro exI [of _ "length rest"]) simp
qed

lemma rsplit_head_no_space: "CHR '' '' \<notin> set s \<Longrightarrow> rsplit_head s = s"
  by (simp add: rsplit_head_def)

lemma length_rsplit_head: "length (rsplit_head s) \<le> length s"
proof (cases "CHR '' '' \<in> set s")
  case True
  then obtain k where "k < length s" "rsplit_head s = take k s"
    using rsplit_head_space by blast
  then show ?thesis by simp
next
  case False
  then show ?thesis by (simp add: rsplit_head_no_space)
qed

lemma parse_entry_summary:
  "parse_entry soup_text md5_hex now e cfg = Some a \<Longrightarrow>
   summary a = summary_of_entry soup_text e (title a)"
  by (auto simp: parse_entry_def parse_entry_body_def Let_def
        split: sum.splits option.splits pyval.splits if_splits)

text \<open>A summary taken from a cleaned summary that is not empty has at most 220 characters.\<close>

lemma summary_cap_when_present:
  assumes "parse_entry soup_text md5_hex now e cfg = Some a"
    and "cleaned_summary soup_text e \<noteq> []"
  shows "length (summary a) \<le> 220"
proof -
  have "length (rsplit_head (take 217 (cleaned_summary soup_text e)) @ ''...'') \<le> 220"
    using length_rsplit_head [of "take 217 (cleaned_summary soup_text e)"] by simp
  then show ?thesis
    using assms(2) unfolding parse_entry_summary [OF assms(1)] summary_of_entry_def Let_def
    by (auto split: if_splits)
qed

lemma truncated_summary:
  assumes parsed: "parse_entry soup_text md5_hex now e cfg = Some a"
    and long: "length cs > 220"
    and cs: "cs = cleaned_summary soup_text e"
  shows "suffix ''...'' (summary a)"
    and "length (summary a) \<le> 220"
    and "CHR '' '' \<in> set (take 217 cs) \<Longrightarrow>
        \<exists>k<217. summary a = take k cs @ ''...'' \<and> cs ! k = CHR '' ''
                \<and> CHR '' '' \<notin> set (drop (Suc k) (take 217 cs))"
    and "CHR '' '' \<notin> set (take 217 cs) \<Longrightarrow> summary a = take 217 cs @ ''...''"
proof -
  have sm: "summary a = rsplit_head (take 217 cs) @ ''...''"
    using long unfolding parse_entry_summary [OF parsed] summary_of_entry_def Let_def cs
    by simp
  have l217: "length (take 217 cs) = 217"
    using long by simp
  show "suffix ''...'' (summary a)"
    unfolding sm by (rule suffix_appendI) simp
  show "length (summary a) \<le> 220"
    using length_rsplit_head [of "take 217 cs"] unfolding sm by simp
  show "\<exists>k<217. summary a = take k cs @ ''...'' \<and> cs ! k = CHR '' ''
        \<and> CHR '' '' \<notin> set (drop (Suc k) (take 217 cs))"
    if sp: "CHR '' '' \<in> set (take 217 cs)"
  proof -
    obtain k where k: "k < length (take 217 cs)"
        "rsplit_head (take 217 cs) = take k (take 217 cs)"
        "take 217 cs ! k = CHR '' ''"
        "CHR '' '' \<notin> set (drop (Suc k) (take 217 cs))"
      using rsplit_head_space [OF sp] by blast
    have "k < 217" using k(1) l217 by simp
    moreover have "take k (take 217 cs) = take k cs"
      using \<open>k < 217\<close> by (simp add: min_def)
    moreover have "take 217 cs ! k = cs ! k"
      using \<open>k < 217\<close> by simp
    ultimately show ?thesis
      using k sm by auto
  qed
  show "summary a = take 217 cs @ ''...''" if "CHR '' '' \<notin> set (take 217 cs)"
    using that sm by (simp add: rsplit_head_no_space)
qed

text \<open>
  C7 (as amended).  When the cleaned summary of an entry, the raw summary (or, without
  one, the description) after \<open>clean_html\<close>, has more than 220 characters, the summary of
  the article that \<open>parse_entry\<close> returns ends with \<open>...\<close> and has at most 220 characters.
  When the first 217 characters of the cleaned summary contain a space, the summary is the
  cleaned summary up to the last space among them, that space left out, followed by
  \<open>...\<close>, so that it ends at the end of a word.  When they contain no space, it is the
  first 217 characters followed by \<open>...\<close>, wherever in a word that falls.
\<close>

theorem summary_truncation:
  "(let cs = clean_html soup_text
               (case entry_summary e of
                  Some s \<Rightarrow> s
                | None \<Rightarrow> (case entry_description e of Some d \<Rightarrow> d | None \<Rightarrow> []))
    in parse_entry soup_text md5_hex now e cfg = Some a \<and> length cs > 220 \<longrightarrow>
         suffix ''...'' (summary a) \<and> length (summary a) \<le> 220 \<and>
         (CHR '' '' \<in> set (take 217 cs) \<longrightarrow>
            (\<exists>k<217. summary a = take k cs @ ''...'' \<and> cs ! k = CHR '' ''
                    \<and> CHR '' '' \<notin> set (drop (Suc k) (take 217 cs)))) \<and>
         (CHR '' '' \<notin> set (take 217 cs) \<longrightarrow> summary a = take 217 cs @ ''...''))"
proof -
  let ?cs = "clean_html soup_text
               (case entry_summary e of
                  Some s \<Rightarrow> s
                | None \<Rightarrow> (case entry_description e of Some d \<Rightarrow> d | None \<Rightarrow> []))"
  have cs: "?cs = cleaned_summary soup_text e"
    by (simp add: cleaned_summary_def summary_raw_def)
  show ?thesis
    unfolding Let_def
    using truncated_summary [of soup_text md5_hex now e cfg a ?cs, OF _ _ cs]
    by blast
qed

lemma long_summary_facts:
  "clean_html plain_soup
     (case entry_summary long_summary_entry of
        Some s \<Rightarrow> s
      | None \<Rightarrow> (case entry_description long_summary_entry of Some d \<Rightarrow> d | None \<Rightarrow> []))
   = long_title"
  "clean_html raising_soup
     (case entry_summary tagged_summary_entry of
        Some s \<Rightarrow> s
      | None \<Rightarrow> (case entry_description tagged_summary_entry of Some d \<Rightarrow> d | None \<Rightarrow> []))
   = long_title"
  "length long_title = 249"
  "long_title ! 213 = CHR '' ''"
  "CHR '' '' \<notin> set (drop 214 (take 217 long_title))"
  "parse_entry plain_soup some_digest 0 long_summary_entry a_feed =
     Some \<lparr>id_a = ''https://exam'', title = ''Tourism board reports record summer'',
       summary = take 213 long_title @ ''...'',
       url = ''https://example.org/o'', source = ''Skift'', feed_geo = ''global'', geo = [],
       date = [], date_obj = NoStamp, score = 0\<rparr>"
  "parse_entry raising_soup some_digest 0 tagged_summary_entry a_feed =
     Some \<lparr>id_a = ''https://exam'', title = ''Tourism board reports record summer'',
       summary = take 213 long_title @ ''...'',
       url = ''https://example.org/o'', source = ''Skift'', feed_geo = ''global'', geo = [],
       date = [], date_obj = NoStamp, score = 0\<rparr>"
  "take 213 long_title @ ''...'' = ''Sustainable tourism strategy for the Danube Delta and the Black Sea coast draws record visitor numbers as the national tourism board, hotel operators and airline partners launch a joint digital campaign across key...''"
  by code_simp+

text \<open>
  A summary of 249 characters, plain or inside markup: the article's summary is its first
  213 characters, up to the last space before the 218th character, and \<open>...\<close>.
\<close>

theorem summary_truncation_witness:
  "length long_title = 249 \<and>
   parse_entry plain_soup some_digest 0 long_summary_entry a_feed =
     Some \<lparr>id_a = ''https://exam'', title = ''Tourism board reports record summer'',
       summary = take 213 long_title @ ''...'',
       url = ''https://example.org/o'', source = ''Skift'', feed_geo = ''global'', geo = [],
       date = [], date_obj = NoStamp, score = 0\<rparr> \<and>
   parse_entry raising_soup some_digest 0 tagged_summary_entry a_feed =
     Some \<lparr>id_a = ''https://exam'', title = ''Tourism board reports record summer'',
       summary = take 213 long_title @ ''...'',
       url = ''https://example.org/o'', source = ''Skift'', feed_geo = ''global'', geo = [],
       date = [], date_obj = NoStamp, score = 0\<rparr> \<and>
   take 213 long_title @ ''...'' = ''Sustainable tourism strategy for the Danube Delta and the Black Sea coast draws record visitor numbers as the national tourism board, hotel operators and airline partners launch a joint digital campaign across key...'' \<and>
   long_title ! 213 = CHR '' '' \<and>
   CHR '' '' \<notin> set (drop 214 (take 217 long_title)) \<and>
   suffix ''...'' (take 213 long_title @ ''...'') \<and>
   length (take 213 long_title @ ''...'') \<le> 220"
proof -
  have "suffix ''...'' (take 213 long_title @ ''...'') \<and>
      length (take 213 long_title @ ''...'') \<le> 220"
    using summary_truncation [of plain_soup long_summary_entry some_digest 0 a_feed
        "\<lparr>id_a = ''https://exam'', title = ''Tourism board reports record summer'',
          summary = take 213 long_title @ ''...'',
          url = ''https://example.org/o'', source = ''Skift'', feed_geo = ''global'', geo = [],
          date = [], date_obj = NoStamp, score = 0\<rparr>"]
    unfolding long_summary_facts(1) Let_def
    using long_summary_facts(3,6) by simp
  then show ?thesis
    using long_summary_facts(3-8) by blast
qed

text \<open>
  A summary that is one word of 221 letters: the claim as first stated has the article's
  summary never end in the middle of a word, but it is the first 217 letters of the word
  and \<open>...\<close>; the 217th and the 218th character are both letters of that word.
\<close>

theorem truncation_counterexample:
  "cleaned_summary plain_soup long_word_entry = replicate 221 (CHR ''a'') \<and>
   parse_entry plain_soup some_digest 0 long_word_entry a_feed =
     Some \<lparr>id_a = ''https://exam'', title = ''Tourism board reports record summer'',
       summary = replicate 217 (CHR ''a'') @ ''...'',
       url = ''https://example.org/w'', source = ''Skift'', feed_geo = ''global'', geo = [],
       date = [], date_obj = NoStamp, score = 0\<rparr> \<and>
   cleaned_summary plain_soup long_word_entry ! 216 = CHR ''a'' \<and>
   cleaned_summary plain_soup long_word_entry ! 217 = CHR ''a''"
  by code_simp

text \<open>
  C8.  An entry with a title of 249 characters and no summary or description is accepted,
  and the summary of the article is that title: 249 characters, more than the 220 that
  the cap allows.  The cap is applied to the cleaned summary before the title is put in
  the place of an empty one.
\<close>

theorem summary_cap_missed_on_fallback:
  "cleaned_summary plain_soup long_title_entry = [] \<and>
   parse_entry plain_soup some_digest 0 long_title_entry a_feed =
     Some \<lparr>id_a = ''https://exam'', title = long_title, summary = long_title,
       url = ''https://example.org/t'', source = ''Skift'', feed_geo = ''global'', geo = [],
       date = [], date_obj = NoStamp, score = 0\<rparr> \<and>
   length long_title = 249 \<and>
   220 < length long_title"
  by code_simp











end
